theory Spec2Isabelle
  imports Main
begin

section \<open>Values of the request payload\<close>

text \<open>
  The views of \<^verbatim>\<open>osmchadjango/feature/views.py\<close> receive a JSON document
  (\<^verbatim>\<open>request.data\<close>) and read it with the operations of Python's dict.
  A JSON object is kept as the list of its items. Numbers with a fraction are left
  out: nothing below computes with them.
\<close>

datatype json =
    JNull
  | JBool bool
  | JInt int
  | JStr string
  | JList "json list"
  | JObj "(string \<times> json) list"

type_synonym dict = "(string \<times> json) list"

text \<open>\<^verbatim>\<open>k in d.keys()\<close>, \<^verbatim>\<open>d.get(k)\<close> (None when the key is
  missing), \<^verbatim>\<open>d.pop(k)\<close> for a key that is there, \<^verbatim>\<open>d[k] = v\<close> for a
  key that is there.\<close>

definition has_key :: "dict \<Rightarrow> string \<Rightarrow> bool" where
  "has_key d k = (map_of d k \<noteq> None)"

definition dict_get :: "dict \<Rightarrow> string \<Rightarrow> json" where
  "dict_get d k = (case map_of d k of None \<Rightarrow> JNull | Some v \<Rightarrow> v)"

definition dict_pop :: "dict \<Rightarrow> string \<Rightarrow> dict" where
  "dict_pop d k = filter (\<lambda>kv. fst kv \<noteq> k) d"

definition dict_set :: "dict \<Rightarrow> string \<Rightarrow> json \<Rightarrow> dict" where
  "dict_set d k v = map (\<lambda>kv. if fst kv = k then (k, v) else kv) d"

text \<open>Python's truth value of an object (\<^verbatim>\<open>not x\<close>, \<^verbatim>\<open>if x:\<close>).\<close>

fun truthy :: "json \<Rightarrow> bool" where
  "truthy JNull = False"
| "truthy (JBool b) = b"
| "truthy (JInt i) = (i \<noteq> 0)"
| "truthy (JStr s) = (s \<noteq> [])"
| "truthy (JList xs) = (xs \<noteq> [])"
| "truthy (JObj d) = (d \<noteq> [])"

text \<open>Lists and dicts cannot be members of a Python set.\<close>

fun hashable :: "json \<Rightarrow> bool" where
  "hashable (JList xs) = False"
| "hashable (JObj d) = False"
| "hashable v = True"

subsection \<open>\<^verbatim>\<open>str\<close> of an integer and \<^verbatim>\<open>'{}-{}'.format\<close>\<close>

definition digit_char :: "nat \<Rightarrow> char" where
  "digit_char d = ''0123456789'' ! d"

fun str_nat :: "nat \<Rightarrow> string" where
  "str_nat n = (if n < 10 then [digit_char n] else str_nat (n div 10) @ [digit_char (n mod 10)])"

declare str_nat.simps [simp del]

definition str_int :: "int \<Rightarrow> string" where
  "str_int i = (if i < 0 then CHR ''-'' # str_nat (nat (- i)) else str_nat (nat i))"

text \<open>
  What \<^verbatim>\<open>'{}'.format(v)\<close> prints. For a list or a dict Python prints the
  \<^verbatim>\<open>repr\<close>, whose quoting rules differ between Python versions; it is the
  parameter \<open>rc\<close>.
\<close>

fun py_str :: "(json \<Rightarrow> string) \<Rightarrow> json \<Rightarrow> string" where
  "py_str rc JNull = ''None''"
| "py_str rc (JBool b) = (if b then ''True'' else ''False'')"
| "py_str rc (JInt i) = str_int i"
| "py_str rc (JStr s) = s"
| "py_str rc v = rc v"

text \<open>\<^verbatim>\<open>'{}-{}'.format(osm_type, osm_id)\<close>\<close>

definition format_url :: "(json \<Rightarrow> string) \<Rightarrow> json \<Rightarrow> json \<Rightarrow> string" where
  "format_url rc osm_type osm_id = py_str rc osm_type @ ''-'' @ py_str rc osm_id"

section \<open>The database\<close>

text \<open>
  The rows of the models the views touch. \<^verbatim>\<open>Changeset\<close> and
  \<^verbatim>\<open>Feature\<close> both carry the four review columns; the rest of a row is what
  \<^verbatim>\<open>create_feature\<close> writes and what migration 0051 reads. A column holds the
  value the view passed in: the coercion of a value to its column type by the ORM is not
  part of the views and is not modelled. Users are referred to by their primary key.
\<close>

record checkable =
  checked :: bool
  harmful :: "bool option"
  check_user :: "nat option"
  check_date :: "nat option"

record suspicion_reason =
  reason_id :: nat
  reason_name :: json
  is_visible :: bool

record tag =
  tag_id :: nat
  tag_name :: string
  tag_is_visible :: bool

text \<open>One dict of the list \<^verbatim>\<open>Changeset.new_features\<close>, as
  \<^verbatim>\<open>filtered_json\<close> builds it.\<close>

record new_feature =
  nf_osm_id :: json
  nf_url :: string
  nf_version :: json
  nf_reasons :: "nat list"
  nf_name :: "json option"

record changeset = checkable +
  cs_id :: json
  date :: int
  uid :: json
  user :: "string option"
  is_suspect :: bool
  reasons :: "nat list"
  tags :: "nat list"
  new_features :: "new_feature list"

record feature = checkable +
  feature_pk :: nat
  changeset_id :: json
  osm_id :: json
  osm_type :: json
  url :: string
  osm_version :: json
  comparator_version :: json
  geometry :: json
  old_geometry :: "json option"
  geojson :: json
  old_geojson :: "json option"
  feature_reasons :: "nat list"

record db =
  suspicion_reasons :: "suspicion_reason list"
  tag_rows :: "tag list"
  changesets :: "changeset list"
  features :: "feature list"
  user_whitelist :: "(nat \<times> string) list"

record account =
  user_pk :: nat
  username :: string
  is_staff :: bool
  social_auth :: "json list"

datatype error =
    AttributeError
  | KeyError string
  | TypeError
  | DateRangeError
  | GEOSError
  | DatabaseError
  | MultipleObjectsReturned
  | DoesNotExist
  | Http404
  | NameError string

datatype response =
    Response nat string
  | JsonResponse nat string string
  | Render string

text \<open>\<^verbatim>\<open>Model.objects.get(...)\<close>: no row, the row, or several rows
  (MultipleObjectsReturned).\<close>

datatype 'a lookup = NoRow | OneRow 'a | ManyRows

definition get_rows :: "('a \<Rightarrow> bool) \<Rightarrow> 'a list \<Rightarrow> 'a lookup" where
  "get_rows P rows =
     (case filter P rows of [] \<Rightarrow> NoRow | [r] \<Rightarrow> OneRow r | r # r' # rs \<Rightarrow> ManyRows)"

definition fresh_id :: "nat list \<Rightarrow> nat" where
  "fresh_id ids = Suc (fold max ids 0)"

text \<open>\<^verbatim>\<open>relation.add(*ids)\<close>: the ids not yet related are appended.\<close>

definition related_add :: "nat list \<Rightarrow> nat list \<Rightarrow> nat list" where
  "related_add old ids = old @ filter (\<lambda>i. i \<notin> set old) ids"

text \<open>
  What a call of \<^verbatim>\<open>relation.add\<close> does in the database. Under concurrent
  requests the insert can fail with IntegrityError although the request's own reads saw
  no duplicate, so the outcome is an input of the model.
\<close>

datatype add_outcome = Added | RaisesIntegrityError | RaisesValueError | RaisesOther

text \<open>\<^verbatim>\<open>GEOSGeometry(json.dumps(g))\<close>: the geometry, one of the exceptions the
  view catches (GDALException, ValueError, TypeError) with its message, or any other
  exception.\<close>

datatype geos_outcome = Parsed json | Rejected string | Crashed

record lib =
  repr_container :: "json \<Rightarrow> string"
  GEOSGeometry :: "json \<Rightarrow> geos_outcome"

section \<open>\<^verbatim>\<open>create_feature\<close> (feature/views.py)\<close>

text \<open>\<^verbatim>\<open>[reasons_texts.add(suspicion['reason']) for suspicion in suspicions]\<close>.
  The set is kept as the list of its members in the order of first insertion.\<close>

fun suspicion_reason_text :: "json \<Rightarrow> error + json" where
  "suspicion_reason_text (JObj d) =
     (case map_of d ''reason'' of
        None \<Rightarrow> Inl (KeyError ''reason'')
      | Some v \<Rightarrow> if hashable v then Inr v else Inl TypeError)"
| "suspicion_reason_text v = Inl TypeError"

fun collect_reasons_texts :: "json list \<Rightarrow> json list \<Rightarrow> error + json list" where
  "collect_reasons_texts acc [] = Inr acc"
| "collect_reasons_texts acc (s # ss) =
     (case suspicion_reason_text s of
        Inl e \<Rightarrow> Inl e
      | Inr v \<Rightarrow> collect_reasons_texts (if v \<in> set acc then acc else acc @ [v]) ss)"

definition reasons_texts_of :: "json \<Rightarrow> error + json list" where
  "reasons_texts_of suspicions =
     (if \<not> truthy suspicions then Inr []
      else case suspicions of
             JList ss \<Rightarrow> collect_reasons_texts [] ss
           | _ \<Rightarrow> Inl TypeError)"

text \<open>\<^verbatim>\<open>SuspicionReasons.objects.get_or_create(name=reason_text)\<close> for every
  text. A new reason takes the model's default visibility (visible).\<close>

fun get_or_create_reasons ::
  "json list \<Rightarrow> nat list \<Rightarrow> suspicion_reason list \<Rightarrow> (error + nat list) \<times> suspicion_reason list" where
  "get_or_create_reasons [] acc rs = (Inr acc, rs)"
| "get_or_create_reasons (t # ts) acc rs =
     (case get_rows (\<lambda>r. reason_name r = t) rs of
        ManyRows \<Rightarrow> (Inl MultipleObjectsReturned, rs)
      | OneRow r \<Rightarrow> get_or_create_reasons ts (related_add acc [reason_id r]) rs
      | NoRow \<Rightarrow>
          (let i = fresh_id (map reason_id rs) in
           get_or_create_reasons ts (related_add acc [i])
             (rs @ [\<lparr>reason_id = i, reason_name = t, is_visible = True\<rparr>])))"

text \<open>\<^verbatim>\<open>datetime.utcfromtimestamp(properties.get('osm:timestamp') / 1000)\<close>.
  The date is kept as the count of milliseconds; a value outside the years 1 to 9999
  makes \<^verbatim>\<open>utcfromtimestamp\<close> raise.\<close>

fun timestamp_date :: "json \<Rightarrow> error + int" where
  "timestamp_date (JInt ms) =
     (if - 62135596800000 \<le> ms \<and> ms < 253402300800000 then Inr ms else Inl DateRangeError)"
| "timestamp_date (JBool b) = Inr (if b then 1 else 0)"
| "timestamp_date v = Inl TypeError"

text \<open>The row \<^verbatim>\<open>Changeset.objects.get_or_create\<close> inserts: the id and the
  three defaults of the view, every other column at the model's default.\<close>

definition new_changeset :: "json \<Rightarrow> int \<Rightarrow> json \<Rightarrow> changeset" where
  "new_changeset cid d u =
     \<lparr>checked = False, harmful = None, check_user = None, check_date = None,
      cs_id = cid, date = d, uid = u, user = None, is_suspect = True,
      reasons = [], tags = [], new_features = []\<rparr>"

definition update_changeset :: "json \<Rightarrow> (changeset \<Rightarrow> changeset) \<Rightarrow> db \<Rightarrow> db" where
  "update_changeset cid f d =
     d\<lparr>changesets := map (\<lambda>c. if cs_id c = cid then f c else c) (changesets d)\<rparr>"

definition update_feature :: "nat \<Rightarrow> (feature \<Rightarrow> feature) \<Rightarrow> db \<Rightarrow> db" where
  "update_feature pk f d =
     d\<lparr>features := map (\<lambda>x. if feature_pk x = pk then f x else x) (features d)\<rparr>"

text \<open>\<^verbatim>\<open>Feature.objects.get_or_create(osm_id=..., changeset=..., defaults=...)\<close>,
  \<^verbatim>\<open>suspicious_feature.reasons.add(*reasons)\<close> and the response.\<close>

definition store_feature ::
  "add_outcome \<Rightarrow> feature \<Rightarrow> nat list \<Rightarrow> db \<Rightarrow> (error + response) \<times> db" where
  "store_feature o2 defaults rs d =
     (case get_rows (\<lambda>f. osm_id f = osm_id defaults \<and> changeset_id f = changeset_id defaults)
             (features d) of
        ManyRows \<Rightarrow> (Inl MultipleObjectsReturned, d)
      | found \<Rightarrow>
          (let pk = (case found of OneRow f \<Rightarrow> feature_pk f
                     | _ \<Rightarrow> fresh_id (map feature_pk (features d)));
               d1 = (case found of OneRow f \<Rightarrow> d
                     | _ \<Rightarrow> d\<lparr>features := features d @ [defaults\<lparr>feature_pk := pk\<rparr>]\<rparr>)
           in case o2 of
                Added \<Rightarrow>
                  (Inr (Response 201 ''Feature created.''),
                   update_feature pk
                     (\<lambda>f. f\<lparr>feature_reasons := related_add (feature_reasons f) rs\<rparr>) d1)
              | RaisesIntegrityError \<Rightarrow> (Inr (Response 201 ''Feature created.''), d1)
              | RaisesValueError \<Rightarrow> (Inr (Response 201 ''Feature created.''), d1)
              | RaisesOther \<Rightarrow> (Inl DatabaseError, d1)))"

text \<open>\<^verbatim>\<open>GEOSGeometry(json.dumps(properties['oldVersion']['geometry']))\<close> inside
  its \<^verbatim>\<open>try\<close>: a caught exception leaves \<^verbatim>\<open>old_geometry\<close> unset.\<close>

definition old_geometry_of :: "lib \<Rightarrow> json \<Rightarrow> error + json option" where
  "old_geometry_of l ov =
     (case ov of
        JObj o_d \<Rightarrow>
          (case map_of o_d ''geometry'' of
             None \<Rightarrow> Inl (KeyError ''geometry'')
           | Some g \<Rightarrow>
               (case GEOSGeometry l g of
                  Parsed geom \<Rightarrow> Inr (Some geom)
                | Rejected e \<Rightarrow> Inr None
                | Crashed \<Rightarrow> Inl GEOSError))
      | _ \<Rightarrow> Inr None)"

text \<open>The second \<^verbatim>\<open>defaults\<close> dict, the geometry and \<^verbatim>\<open>oldVersion\<close>.
  \<open>fd\<close> is the payload and \<open>properties\<close> its properties, both after
  \<^verbatim>\<open>pop('suspicions')\<close>.\<close>

definition feature_defaults ::
  "lib \<Rightarrow> add_outcome \<Rightarrow> dict \<Rightarrow> dict \<Rightarrow> json \<Rightarrow> nat list \<Rightarrow> db \<Rightarrow> (error + response) \<times> db" where
  "feature_defaults l o2 fd properties cid rs d =
     (case map_of properties ''osm:id'' of
        None \<Rightarrow> (Inl (KeyError ''osm:id''), d)
      | Some oid \<Rightarrow>
     (case map_of properties ''osm:type'' of
        None \<Rightarrow> (Inl (KeyError ''osm:type''), d)
      | Some otype \<Rightarrow>
     (case map_of properties ''osm:version'' of
        None \<Rightarrow> (Inl (KeyError ''osm:version''), d)
      | Some over \<Rightarrow>
     (case map_of fd ''geometry'' of
        None \<Rightarrow> (Inl (KeyError ''geometry''), d)
      | Some g \<Rightarrow>
     (case GEOSGeometry l g of
        Rejected e \<Rightarrow>
          (Inr (Response 400
             (e @ '' in geometry field of feature '' @ py_str (repr_container l) oid)), d)
      | Crashed \<Rightarrow> (Inl GEOSError, d)
      | Parsed geom \<Rightarrow>
          (let defaults =
                 \<lparr>checked = False, harmful = None, check_user = None, check_date = None,
                  feature_pk = 0, changeset_id = cid, osm_id = oid, osm_type = otype,
                  url = format_url (repr_container l) otype oid, osm_version = over,
                  comparator_version = dict_get fd ''comparator_version'',
                  geometry = geom, old_geometry = None, geojson = JObj fd,
                  old_geojson = None, feature_reasons = []\<rparr>
           in case map_of properties ''oldVersion'' of
                None \<Rightarrow> store_feature o2 defaults rs d
              | Some ov \<Rightarrow>
                  (case old_geometry_of l ov of
                     Inl e \<Rightarrow> (Inl e, d)
                   | Inr og \<Rightarrow>
                       store_feature o2
                         (defaults\<lparr>old_geometry := og, old_geojson := Some ov,
                            geojson := JObj (dict_set fd ''properties''
                              (JObj (dict_pop properties ''oldVersion'')))\<rparr>)
                         rs d)))))))"

text \<open>\<^verbatim>\<open>Changeset.objects.get_or_create(id=changeset_id, defaults=defaults)\<close>, the
  \<^verbatim>\<open>is_suspect\<close> fix and \<^verbatim>\<open>changeset.reasons.add(*reasons)\<close>.\<close>

definition changeset_upsert ::
  "add_outcome \<Rightarrow> json \<Rightarrow> int \<Rightarrow> json \<Rightarrow> nat list \<Rightarrow> db \<Rightarrow> error option \<times> db" where
  "changeset_upsert o1 cid d_ms u rs d =
     (case get_rows (\<lambda>c. cs_id c = cid) (changesets d) of
        ManyRows \<Rightarrow> (Some MultipleObjectsReturned, d)
      | found \<Rightarrow>
          (let d1 = (case found of
                       OneRow c \<Rightarrow>
                         if \<not> is_suspect c
                         then update_changeset cid (\<lambda>x. c\<lparr>is_suspect := True\<rparr>) d
                         else d
                     | _ \<Rightarrow> d\<lparr>changesets := changesets d @ [new_changeset cid d_ms u]\<rparr>)
           in case o1 of
                Added \<Rightarrow>
                  (None, update_changeset cid (\<lambda>c. c\<lparr>reasons := related_add (reasons c) rs\<rparr>) d1)
              | RaisesIntegrityError \<Rightarrow> (None, d1)
              | RaisesValueError \<Rightarrow> (None, d1)
              | RaisesOther \<Rightarrow> (Some DatabaseError, d1)))"

text \<open>
  The body of the view. The decorators let only an authenticated staff user reach it.
  \<open>o1\<close> and \<open>o2\<close> are the outcomes of the two \<^verbatim>\<open>reasons.add\<close> calls.
\<close>

definition create_feature ::
  "lib \<Rightarrow> add_outcome \<Rightarrow> add_outcome \<Rightarrow> json \<Rightarrow> db \<Rightarrow> (error + response) \<times> db" where
  "create_feature l o1 o2 data d =
     (case data of
        JObj fd \<Rightarrow>
          if \<not> has_key fd ''properties''
          then (Inr (Response 400 ''Expecting a single GeoJSON feature.''), d)
          else
            (case dict_get fd ''properties'' of
               JObj properties \<Rightarrow>
                 (let changeset_id = dict_get properties ''osm:changeset'' in
                  if \<not> truthy changeset_id
                  then (Inr (Response 400 ''osm:changeset field is missing.''), d)
                  else
                    (case reasons_texts_of (dict_get properties ''suspicions'') of
                       Inl e \<Rightarrow> (Inl e, d)
                     | Inr texts \<Rightarrow>
                         (case get_or_create_reasons texts [] (suspicion_reasons d) of
                            (Inl e, rows) \<Rightarrow> (Inl e, d\<lparr>suspicion_reasons := rows\<rparr>)
                          | (Inr rs, rows) \<Rightarrow>
                              (let d1 = d\<lparr>suspicion_reasons := rows\<rparr> in
                               if \<not> has_key properties ''suspicions''
                               then (Inl (KeyError ''suspicions''), d1)
                               else
                                 (let properties1 = dict_pop properties ''suspicions'';
                                      fd1 = dict_set fd ''properties'' (JObj properties1)
                                  in case timestamp_date (dict_get properties1 ''osm:timestamp'') of
                                       Inl e \<Rightarrow> (Inl e, d1)
                                     | Inr d_ms \<Rightarrow>
                                         (case changeset_upsert o1 changeset_id d_ms
                                                 (dict_get properties1 ''osm:uid'') rs d1 of
                                            (Some e, d2) \<Rightarrow> (Inl e, d2)
                                          | (None, d2) \<Rightarrow>
                                              feature_defaults l o2 fd1 properties1
                                                changeset_id rs d2))))))
             | _ \<Rightarrow> (Inl AttributeError, d))
      | _ \<Rightarrow> (Inl AttributeError, d))"

section \<open>The review views of a feature (feature/views.py)\<close>

text \<open>\<^verbatim>\<open>get_object\<close>: \<^verbatim>\<open>get_object_or_404(Feature, changeset=changeset,
  url=url)\<close> with the two keyword arguments of the URL.\<close>

definition get_object :: "json \<Rightarrow> string \<Rightarrow> db \<Rightarrow> error + feature" where
  "get_object changeset slug d =
     (case get_rows (\<lambda>f. changeset_id f = changeset \<and> url f = slug) (features d) of
        NoRow \<Rightarrow> Inl Http404
      | OneRow f \<Rightarrow> Inr f
      | ManyRows \<Rightarrow> Inl MultipleObjectsReturned)"

text \<open>\<^verbatim>\<open>self.object.changeset.uid\<close>: the row the foreign key points to.\<close>

definition changeset_uid :: "feature \<Rightarrow> db \<Rightarrow> error + json" where
  "changeset_uid f d =
     (case get_rows (\<lambda>c. cs_id c = changeset_id f) (changesets d) of
        NoRow \<Rightarrow> Inl DoesNotExist
      | OneRow c \<Rightarrow> Inr (uid c)
      | ManyRows \<Rightarrow> Inl MultipleObjectsReturned)"

text \<open>
  \<^verbatim>\<open>SetHarmfulFeature.post\<close>. An anonymous \<^verbatim>\<open>request.user\<close> (\<open>None\<close>)
  has no \<^verbatim>\<open>social_auth\<close>. The module never imports
  \<^verbatim>\<open>HttpResponseRedirect\<close>, so looking the name up after
  \<^verbatim>\<open>self.object.save()\<close> raises NameError. \<open>now\<close> is
  \<^verbatim>\<open>timezone.now()\<close>.
\<close>

definition SetHarmfulFeature_post ::
  "account option \<Rightarrow> nat \<Rightarrow> json \<Rightarrow> string \<Rightarrow> db \<Rightarrow> (error + response) \<times> db" where
  "SetHarmfulFeature_post request_user now changeset slug d =
     (case get_object changeset slug d of
        Inl e \<Rightarrow> (Inl e, d)
      | Inr obj \<Rightarrow>
          (case changeset_uid obj d of
             Inl e \<Rightarrow> (Inl e, d)
           | Inr owner \<Rightarrow>
               (case request_user of
                  None \<Rightarrow> (Inl AttributeError, d)
                | Some u \<Rightarrow>
                    if owner \<notin> set (social_auth u)
                    then (Inl (NameError ''HttpResponseRedirect''),
                          update_feature (feature_pk obj)
                            (\<lambda>x. obj\<lparr>checked := True, harmful := Some True,
                                    check_user := Some (user_pk u), check_date := Some now\<rparr>) d)
                    else (Inr (Render ''feature/not_allowed.html''), d))))"

text \<open>\<^verbatim>\<open>SetGoodFeature.post\<close>: the same with \<^verbatim>\<open>harmful = False\<close>.\<close>

definition SetGoodFeature_post ::
  "account option \<Rightarrow> nat \<Rightarrow> json \<Rightarrow> string \<Rightarrow> db \<Rightarrow> (error + response) \<times> db" where
  "SetGoodFeature_post request_user now changeset slug d =
     (case get_object changeset slug d of
        Inl e \<Rightarrow> (Inl e, d)
      | Inr obj \<Rightarrow>
          (case changeset_uid obj d of
             Inl e \<Rightarrow> (Inl e, d)
           | Inr owner \<Rightarrow>
               (case request_user of
                  None \<Rightarrow> (Inl AttributeError, d)
                | Some u \<Rightarrow>
                    if owner \<notin> set (social_auth u)
                    then (Inl (NameError ''HttpResponseRedirect''),
                          update_feature (feature_pk obj)
                            (\<lambda>x. obj\<lparr>checked := True, harmful := Some False,
                                    check_user := Some (user_pk u), check_date := Some now\<rparr>) d)
                    else (Inr (Render ''feature/not_allowed.html''), d))))"

text \<open>\<^verbatim>\<open>whitelist_user\<close>: \<open>name\<close> is \<^verbatim>\<open>request.POST.get('name', None)\<close>.\<close>

definition whitelist_user :: "account option \<Rightarrow> string option \<Rightarrow> db \<Rightarrow> response \<times> db" where
  "whitelist_user request_user name d =
     (case request_user of
        None \<Rightarrow> (JsonResponse 401 ''error'' ''Not authenticated'', d)
      | Some u \<Rightarrow>
          (case name of
             None \<Rightarrow> (JsonResponse 403 ''error'' ''Needs name parameter'', d)
           | Some n \<Rightarrow>
               if n = [] then (JsonResponse 403 ''error'' ''Needs name parameter'', d)
               else (JsonResponse 200 ''success'' (''User '' @ n @ '' has been white-listed''),
                     d\<lparr>user_whitelist := user_whitelist d @ [(user_pk u, n)]\<rparr>)))"

section \<open>Migration 0051: filling \<^verbatim>\<open>new_features\<close>\<close>

text \<open>\<^verbatim>\<open>feature.geojson['properties']['name']\<close> under
  \<^verbatim>\<open>except KeyError: pass\<close>; subscripting anything but a dict with a string is a
  TypeError, which the function does not catch.\<close>

definition geojson_name :: "json \<Rightarrow> error + json option" where
  "geojson_name g =
     (case g of
        JObj gd \<Rightarrow>
          (case map_of gd ''properties'' of
             None \<Rightarrow> Inr None
           | Some (JObj pd) \<Rightarrow> Inr (map_of pd ''name'')
           | Some _ \<Rightarrow> Inl TypeError)
      | _ \<Rightarrow> Inl TypeError)"

definition filtered_json :: "(json \<Rightarrow> string) \<Rightarrow> feature \<Rightarrow> error + new_feature" where
  "filtered_json rc f =
     (case geojson_name (geojson f) of
        Inl e \<Rightarrow> Inl e
      | Inr n \<Rightarrow>
          Inr \<lparr>nf_osm_id = osm_id f, nf_url = format_url rc (osm_type f) (osm_id f),
               nf_version = osm_version f, nf_reasons = feature_reasons f, nf_name = n\<rparr>)"

fun map_filtered_json :: "(json \<Rightarrow> string) \<Rightarrow> feature list \<Rightarrow> error + new_feature list" where
  "map_filtered_json rc [] = Inr []"
| "map_filtered_json rc (f # fs) =
     (case filtered_json rc f of
        Inl e \<Rightarrow> Inl e
      | Inr x \<Rightarrow> (case map_filtered_json rc fs of Inl e \<Rightarrow> Inl e | Inr xs \<Rightarrow> Inr (x # xs)))"

text \<open>\<^verbatim>\<open>changeset.features.all()\<close>\<close>

definition changeset_features :: "db \<Rightarrow> json \<Rightarrow> feature list" where
  "changeset_features d cid = filter (\<lambda>f. changeset_id f = cid) (features d)"

text \<open>The loop of \<^verbatim>\<open>migrate_features\<close> over the changesets that have a feature. A
  migration runs in one transaction: an exception leaves no change behind.\<close>

fun migrate_changesets :: "(json \<Rightarrow> string) \<Rightarrow> db \<Rightarrow> changeset list \<Rightarrow> error + changeset list" where
  "migrate_changesets rc d [] = Inr []"
| "migrate_changesets rc d (c # cs) =
     (if changeset_features d (cs_id c) = []
      then (case migrate_changesets rc d cs of Inl e \<Rightarrow> Inl e | Inr cs' \<Rightarrow> Inr (c # cs'))
      else
        (case map_filtered_json rc (changeset_features d (cs_id c)) of
           Inl e \<Rightarrow> Inl e
         | Inr nfs \<Rightarrow>
             (case migrate_changesets rc d cs of
                Inl e \<Rightarrow> Inl e
              | Inr cs' \<Rightarrow> Inr (c\<lparr>new_features := nfs\<rparr> # cs'))))"

definition migrate_features :: "(json \<Rightarrow> string) \<Rightarrow> db \<Rightarrow> error + db" where
  "migrate_features rc d =
     (case migrate_changesets rc d (changesets d) of
        Inl e \<Rightarrow> Inl e
      | Inr cs' \<Rightarrow> Inr (d\<lparr>changesets := cs'\<rparr>))"

section \<open>The changeset API\<close>

text \<open>
  The module \<^verbatim>\<open>changeset/views.py\<close>, its serializers, filters and throttle class
  are not among the sources; \<^verbatim>\<open>changeset/urls.py\<close> names the views and
  \<^verbatim>\<open>changeset/tests/test_changeset_views.py\<close> exercises them. The definitions of
  this section follow the specification and those tests. A response is its status code.
\<close>

text \<open>Modelled from the spec: the state the changeset API works on, the database and
  the throttle's history of request times per user (the throttle's cache is not in the
  sources).\<close>

record site =
  site_db :: db
  throttle_history :: "nat \<Rightarrow> nat list"

text \<open>Modelled from the spec: the throttle of the check views, whose class and rate are
  not in the sources. A user who is not staff may pass 3 requests to set-harmful and
  set-good, counted together, within 60 seconds; staff is never throttled. The history
  of a user holds the times of the requests that passed and are younger than the
  window.\<close>

definition throttle_rate :: nat where
  "throttle_rate = 3"

text \<open>Modelled from the spec: the window of the throttle, one minute in seconds.\<close>

definition throttle_window :: nat where
  "throttle_window = 60"

text \<open>Modelled from the spec: the entries of a history that are younger than the window
  at time \<open>now\<close>.\<close>

definition recent :: "nat \<Rightarrow> nat list \<Rightarrow> nat list" where
  "recent now h = filter (\<lambda>t. now < t + throttle_window) h"

text \<open>Modelled from the spec: the throttle's decision for a request at time \<open>now\<close>
  and the history after it; a request that passes is recorded, a staff request is
  neither counted nor refused.\<close>

definition allow_request ::
  "account \<Rightarrow> nat \<Rightarrow> (nat \<Rightarrow> nat list) \<Rightarrow> bool \<times> (nat \<Rightarrow> nat list)" where
  "allow_request u now hist =
     (if is_staff u then (True, hist)
      else (let h = recent now (hist (user_pk u)) in
            if throttle_rate \<le> length h then (False, hist(user_pk u := h))
            else (True, hist(user_pk u := now # h))))"

text \<open>Modelled from the spec: the tag ids of a request are valid when every one of them
  is the id of a tag (the serializer of the payload is not in the sources).\<close>

definition tags_valid :: "nat list option \<Rightarrow> db \<Rightarrow> bool" where
  "tags_valid data d =
     (case data of
        None \<Rightarrow> True
      | Some ts \<Rightarrow> list_all (\<lambda>t. t \<in> set (map tag_id (tag_rows d))) ts)"

text \<open>Modelled from the spec: the views \<^verbatim>\<open>set_harmful_changeset\<close> and
  \<^verbatim>\<open>set_good_changeset\<close>, which are not in the sources. The checks in sequence: 401 for an anonymous request, 429 when throttled, 404 for an unknown changeset, 403 for
  a changeset that is already checked, 403 for the changeset's own author, 400 for an
  unknown tag id; otherwise the four review columns are written in one step, the tags of
  the payload replace the changeset's, and the status is 200.\<close>

definition mark_changeset ::
  "bool \<Rightarrow> account option \<Rightarrow> nat \<Rightarrow> json \<Rightarrow> nat list option \<Rightarrow> site \<Rightarrow> nat \<times> site" where
  "mark_changeset h request_user now pk data s =
     (case request_user of
        None \<Rightarrow> (401, s)
      | Some u \<Rightarrow>
          (case allow_request u now (throttle_history s) of
             (False, hist) \<Rightarrow> (429, s\<lparr>throttle_history := hist\<rparr>)
           | (True, hist) \<Rightarrow>
               (let s1 = s\<lparr>throttle_history := hist\<rparr> in
                case find (\<lambda>c. cs_id c = pk) (changesets (site_db s)) of
                  None \<Rightarrow> (404, s1)
                | Some c \<Rightarrow>
                    if checked c then (403, s1)
                    else if uid c \<in> set (social_auth u) then (403, s1)
                    else if \<not> tags_valid data (site_db s) then (400, s1)
                    else (200,
                          s1\<lparr>site_db := update_changeset pk
                               (\<lambda>x. x\<lparr>checked := True, harmful := Some h,
                                      check_user := Some (user_pk u), check_date := Some now,
                                      tags := (case data of None \<Rightarrow> tags x | Some ts \<Rightarrow> ts)\<rparr>)
                               (site_db s)\<rparr>))))"

text \<open>Modelled from the spec: \<^verbatim>\<open>set_harmful_changeset\<close>, the view behind
  \<^verbatim>\<open>set-harmful/<pk>/\<close> in \<^verbatim>\<open>changeset/urls.py\<close>.\<close>

definition set_harmful_changeset ::
  "account option \<Rightarrow> nat \<Rightarrow> json \<Rightarrow> nat list option \<Rightarrow> site \<Rightarrow> nat \<times> site" where
  "set_harmful_changeset = mark_changeset True"

text \<open>Modelled from the spec: \<^verbatim>\<open>set_good_changeset\<close>, the view behind
  \<^verbatim>\<open>set-good/<pk>/\<close> in \<^verbatim>\<open>changeset/urls.py\<close>.\<close>

definition set_good_changeset ::
  "account option \<Rightarrow> nat \<Rightarrow> json \<Rightarrow> nat list option \<Rightarrow> site \<Rightarrow> nat \<times> site" where
  "set_good_changeset = mark_changeset False"

text \<open>Modelled from the spec: the view \<^verbatim>\<open>uncheck_changeset\<close>, which is not in the
  sources. 401 for an anonymous request, 404 for an unknown changeset, 403 for a
  changeset that is not checked and for a user who is neither staff nor the one who
  checked it; otherwise the four review columns are cleared in one step (the tags stay)
  and the status is 200.\<close>

definition uncheck_changeset :: "account option \<Rightarrow> json \<Rightarrow> site \<Rightarrow> nat \<times> site" where
  "uncheck_changeset request_user pk s =
     (case request_user of
        None \<Rightarrow> (401, s)
      | Some u \<Rightarrow>
          (case find (\<lambda>c. cs_id c = pk) (changesets (site_db s)) of
             None \<Rightarrow> (404, s)
           | Some c \<Rightarrow>
               if \<not> checked c then (403, s)
               else if is_staff u \<or> check_user c = Some (user_pk u)
               then (200,
                     s\<lparr>site_db := update_changeset pk
                          (\<lambda>x. x\<lparr>checked := False, harmful := None,
                                 check_user := None, check_date := None\<rparr>)
                          (site_db s)\<rparr>)
               else (403, s)))"






text \<open>Modelled from the spec: the names on a user's whitelist, the rows of
  \<^verbatim>\<open>UserWhitelist\<close> of that user (the model is not in the sources).\<close>

definition whitelist_of :: "account \<Rightarrow> db \<Rightarrow> string list" where
  "whitelist_of u d = map snd (filter (\<lambda>w. fst w = user_pk u) (user_whitelist d))"

text \<open>Modelled from the spec: the queryset of the changeset list (the filter class is not
  in the sources). Changesets with an empty author name are never listed; with
  \<^verbatim>\<open>hide_whitelist\<close> an authenticated user does not get the changesets whose author
  is on that user's whitelist, and an anonymous request is not filtered.\<close>

definition changeset_queryset :: "account option \<Rightarrow> bool \<Rightarrow> db \<Rightarrow> changeset list" where
  "changeset_queryset request_user hide_whitelist d =
     filter
       (\<lambda>c. user c \<noteq> Some [] \<and>
            (case request_user of
               None \<Rightarrow> True
             | Some u \<Rightarrow>
                 \<not> hide_whitelist \<or>
                 (case user c of None \<Rightarrow> True | Some n \<Rightarrow> n \<notin> set (whitelist_of u d))))
       (changesets d)"


text \<open>The database without its hidden reasons and tags.\<close>

definition without_hidden :: "db \<Rightarrow> db" where
  "without_hidden d =
     d\<lparr>suspicion_reasons := filter is_visible (suspicion_reasons d),
       tag_rows := filter tag_is_visible (tag_rows d)\<rparr>"

section \<open>Requests and runs\<close>

text \<open>Every operation above as a request, and what a sequence of requests makes of the
  site. A view that raises leaves the database as it was when it raised.\<close>

datatype request =
    CreateFeature lib add_outcome add_outcome json
  | SetHarmfulFeature "account option" nat json string
  | SetGoodFeature "account option" nat json string
  | WhitelistUser "account option" "string option"
  | MigrateFeatures "json \<Rightarrow> string"
  | SetHarmfulChangeset "account option" nat json "nat list option"
  | SetGoodChangeset "account option" nat json "nat list option"
  | UncheckChangeset "account option" json

text \<open>The status of a view's outcome: an uncaught exception is a server error, Http404 a
  404.\<close>

fun status_of :: "error + response \<Rightarrow> nat" where
  "status_of (Inl Http404) = 404"
| "status_of (Inl e) = 500"
| "status_of (Inr (Response n m)) = n"
| "status_of (Inr (JsonResponse n k m)) = n"
| "status_of (Inr (Render t)) = 200"

fun handle :: "request \<Rightarrow> site \<Rightarrow> nat \<times> site" where
  "handle (CreateFeature l o1 o2 data) s =
     (case create_feature l o1 o2 data (site_db s) of (r, d) \<Rightarrow> (status_of r, s\<lparr>site_db := d\<rparr>))"
| "handle (SetHarmfulFeature u now changeset slug) s =
     (case SetHarmfulFeature_post u now changeset slug (site_db s) of
        (r, d) \<Rightarrow> (status_of r, s\<lparr>site_db := d\<rparr>))"
| "handle (SetGoodFeature u now changeset slug) s =
     (case SetGoodFeature_post u now changeset slug (site_db s) of
        (r, d) \<Rightarrow> (status_of r, s\<lparr>site_db := d\<rparr>))"
| "handle (WhitelistUser u name) s =
     (case whitelist_user u name (site_db s) of (r, d) \<Rightarrow> (status_of (Inr r), s\<lparr>site_db := d\<rparr>))"
| "handle (MigrateFeatures rc) s =
     (case migrate_features rc (site_db s) of
        Inl e \<Rightarrow> (500, s)
      | Inr d \<Rightarrow> (200, s\<lparr>site_db := d\<rparr>))"
| "handle (SetHarmfulChangeset u now pk data) s = set_harmful_changeset u now pk data s"
| "handle (SetGoodChangeset u now pk data) s = set_good_changeset u now pk data s"
| "handle (UncheckChangeset u pk) s = uncheck_changeset u pk s"

fun run :: "request list \<Rightarrow> site \<Rightarrow> site" where
  "run [] s = s"
| "run (r # rs) s = run rs (snd (handle r s))"

text \<open>The four review columns of a row are set together or cleared together.\<close>

definition reviewed_together :: "'a checkable_scheme \<Rightarrow> bool" where
  "reviewed_together x =
     (if checked x then harmful x \<noteq> None \<and> check_user x \<noteq> None \<and> check_date x \<noteq> None
      else harmful x = None \<and> check_user x = None \<and> check_date x = None)"

section \<open>Predicates of the properties\<close>

text \<open>An id as OpenStreetMap assigns them: a non-negative integer.\<close>

fun natural_id :: "json \<Rightarrow> bool" where
  "natural_id (JInt i) = (0 \<le> i)"
| "natural_id v = False"

text \<open>The key of \<^verbatim>\<open>Feature.objects.get_or_create\<close> in \<^verbatim>\<open>create_feature\<close>:
  the changeset and the osm id.\<close>

definition feature_key :: "feature \<Rightarrow> json \<times> json" where
  "feature_key f = (changeset_id f, osm_id f)"

text \<open>No two feature rows share a primary key, and no two share the key of
  \<^verbatim>\<open>get_or_create\<close>.\<close>

definition features_unique :: "db \<Rightarrow> bool" where
  "features_unique d =
     (distinct (map feature_pk (features d)) \<and> distinct (map feature_key (features d)))"


text \<open>\<^verbatim>\<open>new_features_data\<close> of \<^verbatim>\<open>migrate_features\<close>: the list
  \<^verbatim>\<open>[filtered_json(feature) for feature in changeset.features.all()]\<close>.\<close>

definition new_features_data :: "(json \<Rightarrow> string) \<Rightarrow> db \<Rightarrow> json \<Rightarrow> error + new_feature list" where
  "new_features_data rc d cid = map_filtered_json rc (changeset_features d cid)"

text \<open>The time of a request when it is a set-harmful or set-good request of the user
  with primary key \<open>p\<close> who is not staff.\<close>

fun mark_time :: "nat \<Rightarrow> request \<Rightarrow> nat option" where
  "mark_time p (SetHarmfulChangeset (Some u) now pk data) =
     (if user_pk u = p \<and> \<not> is_staff u then Some now else None)"
| "mark_time p (SetGoodChangeset (Some u) now pk data) =
     (if user_pk u = p \<and> \<not> is_staff u then Some now else None)"
| "mark_time p r = None"

text \<open>The set-harmful and set-good requests of that user in a run: the time and the
  status of each.\<close>

fun check_log :: "nat \<Rightarrow> request list \<Rightarrow> site \<Rightarrow> (nat \<times> nat) list" where
  "check_log p [] s = []"
| "check_log p (r # rs) s =
     (case mark_time p r of
        None \<Rightarrow> check_log p rs (snd (handle r s))
      | Some now \<Rightarrow> (now, fst (handle r s)) # check_log p rs (snd (handle r s)))"

text \<open>A time within the minute that starts at \<open>w\<close>.\<close>

definition in_window :: "nat \<Rightarrow> nat \<Rightarrow> bool" where
  "in_window w t = (w \<le> t \<and> t < w + throttle_window)"

text \<open>The times of the requests of the log that were not throttled.\<close>

definition passed :: "nat \<Rightarrow> request list \<Rightarrow> site \<Rightarrow> nat list" where
  "passed p reqs s = map fst (filter (\<lambda>e. snd e \<noteq> 429) (check_log p reqs s))"

section \<open>Concrete inputs\<close>

text \<open>A library whose geometry parser accepts a JSON object and rejects everything else,
  the empty database, and a payload in the format of the detection pipeline.\<close>

definition example_lib :: lib where
  "example_lib =
     \<lparr>repr_container = (\<lambda>v. ''[...]''),
      GEOSGeometry = (\<lambda>g. case g of JObj gd \<Rightarrow> Parsed g | _ \<Rightarrow> Rejected ''Invalid geometry'')\<rparr>"

definition empty_db :: db where
  "empty_db =
     \<lparr>suspicion_reasons = [], tag_rows = [], changesets = [], features = [],
      user_whitelist = []\<rparr>"

definition example_properties :: dict where
  "example_properties =
     [(''osm:changeset'', JInt 1234), (''osm:id'', JInt 877656232),
      (''osm:type'', JStr ''node''), (''osm:version'', JInt 54),
      (''osm:timestamp'', JInt 1524661860000), (''osm:uid'', JInt 9999),
      (''name'', JStr ''Salvador''),
      (''suspicions'',
         JList [JObj [(''reason'', JStr ''Deleted place'')],
                JObj [(''reason'', JStr ''Deleted wikidata'')]])]"


text \<open>The same payload without the \<^verbatim>\<open>suspicions\<close> key.\<close>

definition bare_properties :: dict where
  "bare_properties = dict_pop example_properties ''suspicions''"

definition bare_payload :: dict where
  "bare_payload =
     [(''type'', JStr ''Feature''),
      (''geometry'', JObj [(''type'', JStr ''Point'')]),
      (''properties'', JObj bare_properties)]"

text \<open>Two users, a changeset of the first and a changeset of somebody else, each with
  one flagged feature, and a run of requests.\<close>

definition reviewer :: account where
  "reviewer = \<lparr>user_pk = 1, username = ''test'', is_staff = False, social_auth = [JStr ''123123'']\<rparr>"

definition staff_user :: account where
  "staff_user = \<lparr>user_pk = 3, username = ''staff_test'', is_staff = True, social_auth = [JStr ''443324'']\<rparr>"

definition own_changeset :: changeset where
  "own_changeset = (new_changeset (JInt 31982803) 1524661860000 (JStr ''123123''))\<lparr>user := Some ''test''\<rparr>"

definition other_changeset :: changeset where
  "other_changeset = (new_changeset (JInt 31982804) 1524661860000 (JStr ''999999''))\<lparr>user := Some ''test2''\<rparr>"

definition example_feature :: "nat \<Rightarrow> json \<Rightarrow> feature" where
  "example_feature pk cid =
     \<lparr>checked = False, harmful = None, check_user = None, check_date = None,
      feature_pk = pk, changeset_id = cid, osm_id = JInt 877656232, osm_type = JStr ''node'',
      url = ''node-877656232'', osm_version = JInt 54, comparator_version = JNull,
      geometry = JObj [(''type'', JStr ''Point'')], old_geometry = None,
      geojson = JObj [(''properties'', JObj [(''name'', JStr ''Salvador'')])],
      old_geojson = None, feature_reasons = [1]\<rparr>"

definition review_db :: db where
  "review_db =
     \<lparr>suspicion_reasons =
        [\<lparr>reason_id = 1, reason_name = JStr ''possible import'', is_visible = True\<rparr>,
         \<lparr>reason_id = 2, reason_name = JStr ''suspect word'', is_visible = True\<rparr>,
         \<lparr>reason_id = 3, reason_name = JStr ''Big edit in my city'', is_visible = False\<rparr>],
      tag_rows =
        [\<lparr>tag_id = 1, tag_name = ''Vandalism'', tag_is_visible = True\<rparr>,
         \<lparr>tag_id = 2, tag_name = ''Vandalism in my city'', tag_is_visible = False\<rparr>],
      changesets = [own_changeset, other_changeset],
      features = [example_feature 1 (JInt 31982803), example_feature 2 (JInt 31982804)],
      user_whitelist = []\<rparr>"










text \<open>Five unchecked changesets of another author, and five check requests of one user
  within a minute.\<close>

definition throttle_site :: site where
  "throttle_site =
     \<lparr>site_db = empty_db\<lparr>changesets :=
                  map (\<lambda>i. new_changeset (JInt i) 1524661860000 (JStr ''999999'')) [1, 2, 3, 4, 5]\<rparr>,
      throttle_history = (\<lambda>u. [])\<rparr>"

definition throttle_requests :: "request list" where
  "throttle_requests =
     [SetHarmfulChangeset (Some reviewer) 100 (JInt 1) None,
      SetGoodChangeset (Some reviewer) 110 (JInt 2) None,
      SetHarmfulChangeset (Some reviewer) 120 (JInt 3) None,
      SetHarmfulChangeset (Some reviewer) 130 (JInt 4) None,
      SetGoodChangeset (Some reviewer) 159 (JInt 5) None]"

section \<open>Properties of \<^verbatim>\<open>create_feature\<close>\<close>

lemma reasons_texts_of_JNull: "reasons_texts_of JNull = Inr []"
  by (simp add: reasons_texts_of_def)

text \<open>
  C10. A payload whose properties object has a truthy \<^verbatim>\<open>osm:changeset\<close> and no
  \<^verbatim>\<open>suspicions\<close> key makes \<^verbatim>\<open>create_feature\<close> raise KeyError at
  \<^verbatim>\<open>feature['properties'].pop('suspicions')\<close>: the guarded read before it finds no
  reasons, the database is untouched, and the request ends as a server error, not as one
  of the view's 400 responses.
\<close>

theorem create_feature_missing_suspicions:
  assumes "map_of fd ''properties'' = Some (JObj properties)"
      and "truthy (dict_get properties ''osm:changeset'')"
      and "\<not> has_key properties ''suspicions''"
  shows "create_feature l o1 o2 (JObj fd) d = (Inl (KeyError ''suspicions''), d)
         \<and> status_of (fst (create_feature l o1 o2 (JObj fd) d)) = 500"
proof -
  from assms(3) have "dict_get properties ''suspicions'' = JNull"
    by (simp add: has_key_def dict_get_def)
  with assms have "create_feature l o1 o2 (JObj fd) d = (Inl (KeyError ''suspicions''), d)"
    by (simp add: create_feature_def has_key_def dict_get_def reasons_texts_of_JNull)
  then show ?thesis by simp
qed

theorem create_feature_missing_suspicions_witness:
  "create_feature example_lib Added Added (JObj bare_payload) empty_db
     = (Inl (KeyError ''suspicions''), empty_db)
   \<and> status_of (fst (create_feature example_lib Added Added (JObj bare_payload) empty_db)) = 500"
  using create_feature_missing_suspicions
    [of bare_payload bare_properties example_lib Added Added empty_db]
  by (simp add: bare_payload_def bare_properties_def example_properties_def
      dict_get_def has_key_def dict_pop_def)

section \<open>Review of features and changesets\<close>

lemma get_rows_OneRow: "get_rows P rows = OneRow r \<Longrightarrow> r \<in> set rows \<and> P r"
proof -
  assume a: "get_rows P rows = OneRow r"
  then have "filter P rows = [r]"
    by (auto simp: get_rows_def split: list.splits)
  then have "r \<in> set (filter P rows)" by simp
  then show ?thesis by simp
qed

lemma get_object_Inr:
  "get_object changeset slug d = Inr obj \<Longrightarrow>
     obj \<in> set (features d) \<and> changeset_id obj = changeset \<and> url obj = slug"
  by (auto simp: get_object_def split: lookup.splits dest: get_rows_OneRow)

lemma update_feature_mem:
  "obj \<in> set (features d) \<Longrightarrow> feature_pk obj' = feature_pk obj \<Longrightarrow> f obj = obj' \<Longrightarrow> obj' \<in> set (features (update_feature (feature_pk obj) f d))"
  by (force simp: update_feature_def)

lemma find_update_changeset:
  "find (\<lambda>x. cs_id x = pk) cs = Some c \<Longrightarrow> cs_id (f c) = pk \<Longrightarrow>
   find (\<lambda>x. cs_id x = pk) (map (\<lambda>x. if cs_id x = pk then f x else x) cs) = Some (f c)"
  by (induction cs) (auto split: if_splits)

lemma mark_changeset_rejects_owner:
  assumes "find (\<lambda>x. cs_id x = pk) (changesets (site_db s)) = Some c"
      and "uid c \<in> set (social_auth u)"
  shows "site_db (snd (mark_changeset h (Some u) now pk data s)) = site_db s"
    and "fst (allow_request u now (throttle_history s)) \<Longrightarrow>
         fst (mark_changeset h (Some u) now pk data s) = 403"
  using assms by (auto simp: mark_changeset_def Let_def split: prod.splits bool.splits)

lemma mark_changeset_accepts_other:
  assumes "find (\<lambda>x. cs_id x = pk) (changesets (site_db s)) = Some c"
      and "uid c \<notin> set (social_auth u)" and "\<not> checked c" and "tags_valid data (site_db s)"
      and "fst (allow_request u now (throttle_history s))"
  shows "fst (mark_changeset h (Some u) now pk data s) = 200"
    and "find (\<lambda>x. cs_id x = pk) (changesets (site_db (snd (mark_changeset h (Some u) now pk data s))))
         = Some (c\<lparr>checked := True, harmful := Some h, check_user := Some (user_pk u),
                   check_date := Some now, tags := (case data of None \<Rightarrow> tags c | Some ts \<Rightarrow> ts)\<rparr>)"
proof -
  from assms(1) have pk: "cs_id c = pk"
    by (auto simp: find_Some_iff)
  from assms show "fst (mark_changeset h (Some u) now pk data s) = 200"
    by (auto simp: mark_changeset_def Let_def split: prod.splits bool.splits)
  have "find (\<lambda>x. cs_id x = pk) (map (\<lambda>x. if cs_id x = pk then (\<lambda>x. x\<lparr>checked := True, harmful := Some h,
                                      check_user := Some (user_pk u), check_date := Some now,
                                      tags := (case data of None \<Rightarrow> tags x | Some ts \<Rightarrow> ts)\<rparr>) x else x) (changesets (site_db s)))
       = Some ((\<lambda>x. x\<lparr>checked := True, harmful := Some h,
                                      check_user := Some (user_pk u), check_date := Some now,
                                      tags := (case data of None \<Rightarrow> tags x | Some ts \<Rightarrow> ts)\<rparr>) c)"
    by (rule find_update_changeset [OF assms(1)]) (simp add: pk)
  with assms show "find (\<lambda>x. cs_id x = pk) (changesets (site_db (snd (mark_changeset h (Some u) now pk data s))))
         = Some (c\<lparr>checked := True, harmful := Some h, check_user := Some (user_pk u),
                   check_date := Some now, tags := (case data of None \<Rightarrow> tags c | Some ts \<Rightarrow> ts)\<rparr>)"
    by (auto simp: mark_changeset_def update_changeset_def Let_def split: prod.splits bool.splits)
qed

lemma feature_post_owner:
  assumes "get_object changeset slug d = Inr obj"
      and "changeset_uid obj d = Inr owner"
      and "owner \<in> set (social_auth u)"
  shows "SetHarmfulFeature_post (Some u) now changeset slug d = (Inr (Render ''feature/not_allowed.html''), d)"
    and "SetGoodFeature_post (Some u) now changeset slug d = (Inr (Render ''feature/not_allowed.html''), d)"
  using assms by (simp_all add: SetHarmfulFeature_post_def SetGoodFeature_post_def)

lemma feature_post_other:
  assumes "get_object changeset slug d = Inr obj"
      and "changeset_uid obj d = Inr owner"
      and "owner \<notin> set (social_auth u)"
  shows "SetHarmfulFeature_post (Some u) now changeset slug d =
           (Inl (NameError ''HttpResponseRedirect''),
            update_feature (feature_pk obj)
              (\<lambda>x. obj\<lparr>checked := True, harmful := Some True,
                      check_user := Some (user_pk u), check_date := Some now\<rparr>) d)"
    and "SetGoodFeature_post (Some u) now changeset slug d =
           (Inl (NameError ''HttpResponseRedirect''),
            update_feature (feature_pk obj)
              (\<lambda>x. obj\<lparr>checked := True, harmful := Some False,
                      check_user := Some (user_pk u), check_date := Some now\<rparr>) d)"
    and "obj\<lparr>checked := True, harmful := Some h,
              check_user := Some (user_pk u), check_date := Some now\<rparr>
         \<in> set (features (update_feature (feature_pk obj)
              (\<lambda>x. obj\<lparr>checked := True, harmful := Some h,
                      check_user := Some (user_pk u), check_date := Some now\<rparr>) d))"
proof -
  from assms(1) have mem: "obj \<in> set (features d)" by (simp add: get_object_Inr)
  show "obj\<lparr>checked := True, harmful := Some h,
              check_user := Some (user_pk u), check_date := Some now\<rparr>
         \<in> set (features (update_feature (feature_pk obj)
              (\<lambda>x. obj\<lparr>checked := True, harmful := Some h,
                      check_user := Some (user_pk u), check_date := Some now\<rparr>) d))"
    by (rule update_feature_mem [OF mem]) simp_all
qed (use assms in \<open>simp_all add: SetHarmfulFeature_post_def SetGoodFeature_post_def\<close>)

text \<open>
  C9. When the requesting user's uids do not include the uid of the changeset's author,
  \<^verbatim>\<open>SetHarmfulFeature.post\<close> and \<^verbatim>\<open>SetGoodFeature.post\<close> save the feature
  with its four review columns set and then raise NameError for
  \<^verbatim>\<open>HttpResponseRedirect\<close>, which the module never imports: the outcome is an
  exception (a server error), never a redirect, and the saved row is in the database.
\<close>

theorem feature_post_raises_NameError:
  assumes "get_object changeset slug d = Inr obj"
      and "changeset_uid obj d = Inr owner"
      and "owner \<notin> set (social_auth u)"
  shows "fst (SetHarmfulFeature_post (Some u) now changeset slug d) = Inl (NameError ''HttpResponseRedirect'')
       \<and> obj\<lparr>checked := True, harmful := Some True,
               check_user := Some (user_pk u), check_date := Some now\<rparr>
           \<in> set (features (snd (SetHarmfulFeature_post (Some u) now changeset slug d)))
       \<and> fst (SetGoodFeature_post (Some u) now changeset slug d) = Inl (NameError ''HttpResponseRedirect'')
       \<and> obj\<lparr>checked := True, harmful := Some False,
               check_user := Some (user_pk u), check_date := Some now\<rparr>
           \<in> set (features (snd (SetGoodFeature_post (Some u) now changeset slug d)))
       \<and> status_of (fst (SetHarmfulFeature_post (Some u) now changeset slug d)) = 500
       \<and> status_of (fst (SetGoodFeature_post (Some u) now changeset slug d)) = 500"
  using feature_post_other [OF assms] by simp

theorem feature_post_raises_NameError_witness:
  "fst (SetHarmfulFeature_post (Some reviewer) 1525000000 (JInt 31982804) ''node-877656232'' review_db)
      = Inl (NameError ''HttpResponseRedirect'')
   \<and> (example_feature 2 (JInt 31982804))\<lparr>checked := True, harmful := Some True,
         check_user := Some 1, check_date := Some 1525000000\<rparr>
       \<in> set (features (snd (SetHarmfulFeature_post (Some reviewer) 1525000000 (JInt 31982804)
                                ''node-877656232'' review_db)))
   \<and> fst (SetGoodFeature_post (Some reviewer) 1525000000 (JInt 31982804) ''node-877656232'' review_db)
      = Inl (NameError ''HttpResponseRedirect'')"
proof -
  have a: "get_object (JInt 31982804) ''node-877656232'' review_db = Inr (example_feature 2 (JInt 31982804))"
    by (simp add: get_object_def get_rows_def review_db_def example_feature_def)
  have b: "changeset_uid (example_feature 2 (JInt 31982804)) review_db = Inr (JStr ''999999'')"
    by (simp add: changeset_uid_def get_rows_def review_db_def example_feature_def
        own_changeset_def other_changeset_def new_changeset_def)
  have c: "JStr ''999999'' \<notin> set (social_auth reviewer)"
    by (simp add: reviewer_def)
  show ?thesis
    using feature_post_raises_NameError [OF a b c, of 1525000000]
    by (simp add: reviewer_def)
qed


lemma update_feature_changesets [simp]: "changesets (update_feature pk f d) = changesets d"
  by (simp add: update_feature_def)

lemma update_changeset_features [simp]: "features (update_changeset pk f d) = features d"
  by (simp add: update_changeset_def)

lemma store_feature_changesets [simp]:
  "changesets (snd (store_feature o2 df rs d)) = changesets d"
  by (simp add: store_feature_def Let_def split: lookup.splits add_outcome.splits)

lemma feature_defaults_changesets [simp]:
  "changesets (snd (feature_defaults l o2 fd props cid rs d)) = changesets d"
  by (simp add: feature_defaults_def Let_def
      split: option.splits geos_outcome.splits sum.splits)

lemma changeset_upsert_features [simp]:
  "features (snd (changeset_upsert o1 cid ms u rs d)) = features d"
  by (simp add: changeset_upsert_def Let_def split: lookup.splits add_outcome.splits)








lemma whitelist_user_rows [simp]:
  "changesets (snd (whitelist_user ru name d)) = changesets d"
  "features (snd (whitelist_user ru name d)) = features d"
  by (simp_all add: whitelist_user_def split: option.splits)

lemma migrate_changesets_reviewed:
  "migrate_changesets rc d cs = Inr cs' \<Longrightarrow> list_all reviewed_together cs \<Longrightarrow>
   list_all reviewed_together cs'"
  by (induction cs arbitrary: cs')
     (auto simp: reviewed_together_def split: if_splits sum.splits)

lemma migrate_features_reviewed:
  assumes "migrate_features rc d = Inr d'"
  shows "features d' = features d"
    and "list_all reviewed_together (changesets d) \<Longrightarrow> list_all reviewed_together (changesets d')"
  using assms
  by (auto simp: migrate_features_def split: sum.splits dest: migrate_changesets_reviewed)








text \<open>
  The changeset's own author is turned away. For a user who is not staff and whose uid is
  the uid of the changeset's author, the modelled set-harmful and set-good answer 403 (for
  a request that passes the throttle) and leave the database as it is, and the two feature
  views answer with the not-allowed page and leave the database as it is. For a changeset
  of another author that is not yet checked, with valid tags, the two modelled API
  requests answer 200 and write the four review columns.
\<close>

lemma own_changeset_not_allowed:
  assumes "\<not> is_staff u"
      and "fst (allow_request u now (throttle_history s))"
      and "find (\<lambda>x. cs_id x = pk) (changesets (site_db s)) = Some c"
      and "uid c \<in> set (social_auth u)"
      and "get_object pk slug (site_db s) = Inr obj"
      and "changeset_uid obj (site_db s) = Inr (uid c)"
      and "find (\<lambda>x. cs_id x = pk') (changesets (site_db s)) = Some c'"
      and "uid c' \<notin> set (social_auth u)"
      and "\<not> checked c'"
      and "tags_valid data (site_db s)"
  shows "fst (set_harmful_changeset (Some u) now pk data s) = 403
       \<and> site_db (snd (set_harmful_changeset (Some u) now pk data s)) = site_db s
       \<and> fst (set_good_changeset (Some u) now pk data s) = 403
       \<and> site_db (snd (set_good_changeset (Some u) now pk data s)) = site_db s
       \<and> SetHarmfulFeature_post (Some u) now pk slug (site_db s)
           = (Inr (Render ''feature/not_allowed.html''), site_db s)
       \<and> SetGoodFeature_post (Some u) now pk slug (site_db s)
           = (Inr (Render ''feature/not_allowed.html''), site_db s)
       \<and> fst (set_harmful_changeset (Some u) now pk' data s) = 200
       \<and> find (\<lambda>x. cs_id x = pk')
            (changesets (site_db (snd (set_harmful_changeset (Some u) now pk' data s))))
           = Some (c'\<lparr>checked := True, harmful := Some True, check_user := Some (user_pk u),
                      check_date := Some now,
                      tags := (case data of None \<Rightarrow> tags c' | Some ts \<Rightarrow> ts)\<rparr>)
       \<and> fst (set_good_changeset (Some u) now pk' data s) = 200
       \<and> find (\<lambda>x. cs_id x = pk')
            (changesets (site_db (snd (set_good_changeset (Some u) now pk' data s))))
           = Some (c'\<lparr>checked := True, harmful := Some False, check_user := Some (user_pk u),
                      check_date := Some now,
                      tags := (case data of None \<Rightarrow> tags c' | Some ts \<Rightarrow> ts)\<rparr>)"
  using mark_changeset_rejects_owner [OF assms(3,4), where h = True and now = now and data = data]
        mark_changeset_rejects_owner [OF assms(3,4), where h = False and now = now and data = data]
        feature_post_owner [OF assms(5,6,4), where now = now]
        mark_changeset_accepts_other [OF assms(7,8,9,10,2), where h = True]
        mark_changeset_accepts_other [OF assms(7,8,9,10,2), where h = False]
        assms(2)
  by (simp add: set_harmful_changeset_def set_good_changeset_def)

text \<open>
  C4. The feature views turn the changeset's own author away and change nothing, but they
  do not succeed for a changeset of another author. User \<^verbatim>\<open>test\<close> (uid 123123, not
  staff) posts to \<^verbatim>\<open>SetHarmfulFeature\<close> and \<^verbatim>\<open>SetGoodFeature\<close> for the feature
  \<^verbatim>\<open>node-877656232\<close>. In changeset 31982803, whose author has uid 123123, both views
  answer with the not-allowed page and the database is as before. In changeset 31982804,
  whose author has uid 999999, both views save the mark and then raise NameError for the
  name \<^verbatim>\<open>HttpResponseRedirect\<close>, which the module never imports: the request ends as
  a server error instead of the redirect to the feature's page.
\<close>

theorem feature_post_other_author_fails:
  "\<not> is_staff reviewer
   \<and> changeset_uid (example_feature 1 (JInt 31982803)) review_db = Inr (JStr ''123123'')
   \<and> JStr ''123123'' \<in> set (social_auth reviewer)
   \<and> SetHarmfulFeature_post (Some reviewer) 1525000000 (JInt 31982803) ''node-877656232'' review_db
       = (Inr (Render ''feature/not_allowed.html''), review_db)
   \<and> SetGoodFeature_post (Some reviewer) 1525000000 (JInt 31982803) ''node-877656232'' review_db
       = (Inr (Render ''feature/not_allowed.html''), review_db)
   \<and> changeset_uid (example_feature 2 (JInt 31982804)) review_db = Inr (JStr ''999999'')
   \<and> JStr ''999999'' \<notin> set (social_auth reviewer)
   \<and> fst (SetHarmfulFeature_post (Some reviewer) 1525000000 (JInt 31982804) ''node-877656232''
             review_db) = Inl (NameError ''HttpResponseRedirect'')
   \<and> status_of (fst (SetHarmfulFeature_post (Some reviewer) 1525000000 (JInt 31982804)
                        ''node-877656232'' review_db)) = 500
   \<and> fst (SetGoodFeature_post (Some reviewer) 1525000000 (JInt 31982804) ''node-877656232''
             review_db) = Inl (NameError ''HttpResponseRedirect'')
   \<and> status_of (fst (SetGoodFeature_post (Some reviewer) 1525000000 (JInt 31982804)
                        ''node-877656232'' review_db)) = 500
   \<and> (example_feature 2 (JInt 31982804))\<lparr>checked := True, harmful := Some True,
         check_user := Some 1, check_date := Some 1525000000\<rparr>
       \<in> set (features (snd (SetHarmfulFeature_post (Some reviewer) 1525000000 (JInt 31982804)
                                ''node-877656232'' review_db)))"
proof -
  have o1: "get_object (JInt 31982803) ''node-877656232'' review_db
              = Inr (example_feature 1 (JInt 31982803))"
    by (simp add: get_object_def get_rows_def review_db_def example_feature_def)
  have o2: "changeset_uid (example_feature 1 (JInt 31982803)) review_db = Inr (JStr ''123123'')"
    by (simp add: changeset_uid_def get_rows_def review_db_def example_feature_def
        own_changeset_def other_changeset_def new_changeset_def)
  have o3: "JStr ''123123'' \<in> set (social_auth reviewer)" and st: "\<not> is_staff reviewer"
    and pk: "user_pk reviewer = 1"
    by (simp_all add: reviewer_def)
  have a1: "get_object (JInt 31982804) ''node-877656232'' review_db
              = Inr (example_feature 2 (JInt 31982804))"
    by (simp add: get_object_def get_rows_def review_db_def example_feature_def)
  have a2: "changeset_uid (example_feature 2 (JInt 31982804)) review_db = Inr (JStr ''999999'')"
    by (simp add: changeset_uid_def get_rows_def review_db_def example_feature_def
        own_changeset_def other_changeset_def new_changeset_def)
  have a3: "JStr ''999999'' \<notin> set (social_auth reviewer)"
    by (simp add: reviewer_def)
  from feature_post_owner [OF o1 o2 o3, where now = 1525000000]
       feature_post_other(1,2) [OF a1 a2 a3, where now = 1525000000]
       feature_post_other(3) [OF a1 a2 a3, where now = 1525000000 and h = True]
       o2 o3 st a2 a3
  show ?thesis by (simp add: pk)
qed

section \<open>Visibility of labels and the whitelist\<close>

lemma distinct_map_eq:
  "distinct (map f xs) \<Longrightarrow> x \<in> set xs \<Longrightarrow> y \<in> set xs \<Longrightarrow> f x = f y \<Longrightarrow> x = y"
  by (meson distinct_map inj_on_def)





lemma without_hidden_rows [simp]:
  "changesets (without_hidden d) = changesets d"
  "user_whitelist (without_hidden d) = user_whitelist d"
  by (simp_all add: without_hidden_def)






lemma whitelist_of_whitelist_user:
  "n \<noteq> [] \<Longrightarrow> n \<in> set (whitelist_of u (snd (whitelist_user (Some u) (Some n) d)))"
  by (simp add: whitelist_user_def whitelist_of_def)

lemma whitelist_of_other_user:
  "user_pk v \<noteq> user_pk u \<Longrightarrow>
   whitelist_of u (snd (whitelist_user (Some v) name d)) = whitelist_of u d"
  by (simp add: whitelist_user_def whitelist_of_def split: option.splits)

lemma whitelist_user_changesets:
  "changesets (snd (whitelist_user ru name d)) = changesets d"
  by (simp add: whitelist_user_def split: option.splits)

text \<open>
  C8. With \<^verbatim>\<open>hide_whitelist\<close> an authenticated user gets no changeset whose author
  is on that user's whitelist, and gets every other listed changeset; after
  \<^verbatim>\<open>whitelist_user\<close> has whitelisted a name for the user, no changeset of that author
  is left. For an anonymous request the parameter excludes nothing, and the whitelist of
  another user does not change what a user gets.
\<close>

theorem hide_whitelist_per_user:
  assumes "n \<noteq> []" and "user_pk v \<noteq> user_pk u"
  shows "(\<forall>c \<in> set (changeset_queryset (Some u) True d).
            \<forall>w. user c = Some w \<longrightarrow> w \<notin> set (whitelist_of u d))
       \<and> fst (whitelist_user (Some u) (Some n) d)
           = JsonResponse 200 ''success'' (''User '' @ n @ '' has been white-listed'')
       \<and> (\<forall>c \<in> set (changeset_queryset (Some u) True (snd (whitelist_user (Some u) (Some n) d))).
            user c \<noteq> Some n)
       \<and> set (changeset_queryset (Some u) True d)
           = {c \<in> set (changesets d). user c \<noteq> Some [] \<and>
                (\<forall>w. user c = Some w \<longrightarrow> w \<notin> set (whitelist_of u d))}
       \<and> changeset_queryset None True d = changeset_queryset None False d
       \<and> changeset_queryset (Some u) True (snd (whitelist_user (Some v) name d))
           = changeset_queryset (Some u) True d"
proof -
  have 1: "\<forall>c \<in> set (changeset_queryset (Some u) True d').
            \<forall>w. user c = Some w \<longrightarrow> w \<notin> set (whitelist_of u d')" for d'
    by (auto simp: changeset_queryset_def)
  have 2: "\<forall>c \<in> set (changeset_queryset (Some u) True (snd (whitelist_user (Some u) (Some n) d))).
            user c \<noteq> Some n"
    using 1 [of "snd (whitelist_user (Some u) (Some n) d)"]
      whitelist_of_whitelist_user [OF assms(1), of u d] by blast
  have 3: "set (changeset_queryset (Some u) True d)
           = {c \<in> set (changesets d). user c \<noteq> Some [] \<and>
                (\<forall>w. user c = Some w \<longrightarrow> w \<notin> set (whitelist_of u d))}"
    by (auto simp: changeset_queryset_def split: option.splits)
  have 4: "changeset_queryset (Some u) True (snd (whitelist_user (Some v) name d))
           = changeset_queryset (Some u) True d"
    by (simp add: changeset_queryset_def whitelist_of_other_user [OF assms(2)]
        cong: option.case_cong)
  have 5: "fst (whitelist_user (Some u) (Some n) d)
           = JsonResponse 200 ''success'' (''User '' @ n @ '' has been white-listed'')"
    using assms(1) by (simp add: whitelist_user_def)
  from 1 [of d] 2 3 4 5 show ?thesis
    by (simp add: changeset_queryset_def)
qed

theorem hide_whitelist_per_user_witness:
  "fst (whitelist_user (Some reviewer) (Some ''test2'') review_db)
     = JsonResponse 200 ''success'' ''User test2 has been white-listed''
   \<and> changeset_queryset None True review_db = changeset_queryset None False review_db
   \<and> changeset_queryset (Some reviewer) True
        (snd (whitelist_user (Some staff_user) (Some ''test2'') review_db))
       = changeset_queryset (Some reviewer) True review_db"
proof -
  have a1: "''test2'' \<noteq> []" and a2: "user_pk staff_user \<noteq> user_pk reviewer"
    by (simp_all add: staff_user_def reviewer_def)
  show ?thesis
    using hide_whitelist_per_user [OF a1 a2, of review_db "Some ''test2''"]
    by simp
qed

section \<open>Ingested features: urls, uniqueness, outcomes\<close>

lemma digit_cases:
  "d < 10 \<Longrightarrow> d = 0 \<or> d = 1 \<or> d = 2 \<or> d = 3 \<or> d = 4 \<or> d = 5 \<or> d = 6 \<or> d = 7 \<or> d = 8 \<or> d = (9::nat)"
  by arith

lemma digit_char_code: "d < 10 \<Longrightarrow> (of_char (digit_char d) :: nat) = 48 + d"
  using digit_cases [of d] by (auto simp: digit_char_def)

lemma digit_char_inj: "d < 10 \<Longrightarrow> e < 10 \<Longrightarrow> digit_char d = digit_char e \<Longrightarrow> d = e"
proof -
  assume d: "d < 10" and e: "e < 10" and eq: "digit_char d = digit_char e"
  have "48 + d = (of_char (digit_char d) :: nat)" using d by (rule digit_char_code [symmetric])
  also have "\<dots> = of_char (digit_char e)" by (simp only: eq)
  also have "\<dots> = 48 + e" using e by (rule digit_char_code)
  finally show "d = e" by (simp only: add_left_cancel)
qed

lemma digit_char_not_hyphen: "d < 10 \<Longrightarrow> digit_char d \<noteq> CHR ''-''"
  using digit_cases [of d] by (auto simp: digit_char_def)

lemma str_nat_not_Nil: "str_nat n \<noteq> []"
  by (subst str_nat.simps) simp

lemma str_nat_no_hyphen: "CHR ''-'' \<notin> set (str_nat n)"
proof (induction n rule: str_nat.induct)
  case (1 n)
  show ?case
  proof (cases "n < 10")
    case True
    then show ?thesis
      using digit_char_not_hyphen [of n] by (subst str_nat.simps) auto
  next
    case False
    with 1 digit_char_not_hyphen [of "n mod 10"] show ?thesis
      by (subst str_nat.simps) auto
  qed
qed

lemma str_nat_inj: "str_nat n = str_nat m \<Longrightarrow> n = m"
proof (induction n arbitrary: m rule: str_nat.induct)
  case (1 n)
  show ?case
  proof (cases "n < 10")
    case True
    then have n: "str_nat n = [digit_char n]" by (subst str_nat.simps) simp
    show ?thesis
    proof (cases "m < 10")
      case mt: True
      then have "str_nat m = [digit_char m]" by (subst str_nat.simps) simp
      with n "1.prems" have "digit_char n = digit_char m" by simp
      with True mt show ?thesis by (rule digit_char_inj)
    next
      case False
      then have "str_nat m = str_nat (m div 10) @ [digit_char (m mod 10)]"
        by (subst str_nat.simps) simp
      with n "1.prems" str_nat_not_Nil [of "m div 10"] show ?thesis by simp
    qed
  next
    case False
    then have n: "str_nat n = str_nat (n div 10) @ [digit_char (n mod 10)]"
      by (subst str_nat.simps) simp
    show ?thesis
    proof (cases "m < 10")
      case True
      then have "str_nat m = [digit_char m]" by (subst str_nat.simps) simp
      with n "1.prems" str_nat_not_Nil [of "n div 10"] show ?thesis by simp
    next
      case mf: False
      then have "str_nat m = str_nat (m div 10) @ [digit_char (m mod 10)]"
        by (subst str_nat.simps) simp
      with n "1.prems" have a: "str_nat (n div 10) = str_nat (m div 10)"
        and b: "digit_char (n mod 10) = digit_char (m mod 10)" by simp_all
      from "1.IH" [OF False a] have "n div 10 = m div 10" .
      moreover from b have "n mod 10 = m mod 10" by (intro digit_char_inj) simp_all
      ultimately show ?thesis by (metis div_mult_mod_eq)
    qed
  qed
qed

lemma suffix_after_hyphen:
  assumes "t1 @ ''-'' @ s1 = t2 @ ''-'' @ s2"
      and "CHR ''-'' \<notin> set s1" and "CHR ''-'' \<notin> set s2"
  shows "s1 = s2"
proof -
  from assms(1) have "rev (t1 @ ''-'' @ s1) = rev (t2 @ ''-'' @ s2)" by simp
  then have "rev s1 @ CHR ''-'' # rev t1 = rev s2 @ CHR ''-'' # rev t2" by simp
  then have "takeWhile (\<lambda>c. c \<noteq> CHR ''-'') (rev s1 @ CHR ''-'' # rev t1)
           = takeWhile (\<lambda>c. c \<noteq> CHR ''-'') (rev s2 @ CHR ''-'' # rev t2)" by simp
  moreover have "takeWhile (\<lambda>c. c \<noteq> CHR ''-'') (rev s @ CHR ''-'' # ys) = rev s"
    if "CHR ''-'' \<notin> set s" for s ys
    using that by (subst takeWhile_append2) auto
  ultimately have "rev s1 = rev s2" using assms(2,3) by simp
  then show ?thesis by simp
qed

lemma format_url_inj:
  assumes "format_url rc t1 i1 = format_url rc t2 i2" and "natural_id i1" and "natural_id i2"
  shows "i1 = i2"
proof -
  from assms(2) obtain n1 where n1: "i1 = JInt n1" "0 \<le> n1" by (cases i1) auto
  from assms(3) obtain n2 where n2: "i2 = JInt n2" "0 \<le> n2" by (cases i2) auto
  from assms(1) n1 n2 have "py_str rc t1 @ ''-'' @ str_nat (nat n1) = py_str rc t2 @ ''-'' @ str_nat (nat n2)"
    by (simp add: format_url_def str_int_def)
  then have "str_nat (nat n1) = str_nat (nat n2)"
    by (rule suffix_after_hyphen) (rule str_nat_no_hyphen)+
  then have "nat n1 = nat n2" by (rule str_nat_inj)
  with n1 n2 show ?thesis by simp
qed

lemma get_rows_NoRow: "get_rows P rows = NoRow \<Longrightarrow> x \<in> set rows \<Longrightarrow> \<not> P x"
proof -
  assume "get_rows P rows = NoRow" and x: "x \<in> set rows"
  then have "filter P rows = []" by (auto simp: get_rows_def split: list.splits)
  with x show "\<not> P x" by (auto simp: filter_empty_conv)
qed

lemma fold_max_ge_init: "a \<le> fold max ids (a::nat)"
proof (induction ids arbitrary: a)
  case Nil
  show ?case by simp
next
  case (Cons i ids)
  have "a \<le> max i a" by simp
  also have "\<dots> \<le> fold max ids (max i a)" by (rule Cons.IH)
  finally show ?case by simp
qed

lemma fold_max_ge: "x \<in> set ids \<Longrightarrow> x \<le> fold max ids (a::nat)"
proof (induction ids arbitrary: a)
  case Nil
  then show ?case by simp
next
  case (Cons i ids)
  show ?case
  proof (cases "x = i")
    case True
    have "x \<le> max x a" by simp
    also have "\<dots> \<le> fold max ids (max x a)" by (rule fold_max_ge_init)
    finally show ?thesis using True by simp
  next
    case False
    with Cons show ?thesis by simp
  qed
qed

lemma fresh_id_fresh: "fresh_id ids \<notin> set ids"
proof
  assume "fresh_id ids \<in> set ids"
  then have "fresh_id ids \<le> fold max ids 0" by (rule fold_max_ge)
  then show False by (simp add: fresh_id_def)
qed

lemma map_update_same:
  "(\<And>x. x \<in> set xs \<Longrightarrow> Q x \<Longrightarrow> k (g x) = k x) \<Longrightarrow>
   map k (map (\<lambda>x. if Q x then g x else x) xs) = map k xs"
  by (induction xs) auto

lemma update_feature_reasons_keys:
  "map feature_key (features (update_feature pk (\<lambda>f. f\<lparr>feature_reasons := h f\<rparr>) d))
     = map feature_key (features d)"
  "map feature_pk (features (update_feature pk (\<lambda>f. f\<lparr>feature_reasons := h f\<rparr>) d))
     = map feature_pk (features d)"
  unfolding update_feature_def
  by (simp_all add: map_update_same feature_key_def)

lemma features_unique_reasons:
  "features_unique (update_feature pk (\<lambda>f. f\<lparr>feature_reasons := h f\<rparr>) d) = features_unique d"
  by (simp add: features_unique_def update_feature_reasons_keys)

lemma store_feature_unique:
  assumes "features_unique d"
  shows "features_unique (snd (store_feature o2 df rs d))"
proof (cases "get_rows (\<lambda>f. osm_id f = osm_id df \<and> changeset_id f = changeset_id df) (features d)")
  case NoRow
  have "feature_key f \<noteq> feature_key df" if "f \<in> set (features d)" for f
    using get_rows_NoRow [OF NoRow that] by (auto simp: feature_key_def)
  then have k: "feature_key df \<notin> set (map feature_key (features d))" by force
  have new: "features_unique (d\<lparr>features := features d @ [df\<lparr>feature_pk := fresh_id (map feature_pk (features d))\<rparr>]\<rparr>)"
    using assms k fresh_id_fresh [of "map feature_pk (features d)"]
    by (simp add: features_unique_def feature_key_def)
  with NoRow show ?thesis
    by (cases o2) (simp_all add: store_feature_def Let_def features_unique_reasons)
next
  case (OneRow f)
  with assms show ?thesis
    by (cases o2) (simp_all add: store_feature_def Let_def features_unique_reasons)
next
  case ManyRows
  with assms show ?thesis by (simp add: store_feature_def)
qed

lemma feature_defaults_unique:
  assumes "features_unique d"
  shows "features_unique (snd (feature_defaults l o2 fd props cid rs d))"
  using assms
  by (simp add: feature_defaults_def Let_def store_feature_unique
      split: option.splits geos_outcome.splits sum.splits)

lemma changeset_upsert_unique:
  "features_unique (snd (changeset_upsert o1 cid ms u rs d)) = features_unique d"
  by (simp add: features_unique_def)

lemma create_feature_unique:
  assumes "features_unique d"
  shows "features_unique (snd (create_feature l o1 o2 data d))"
proof -
  have fs: "features_unique (snd (feature_defaults l o2 fd props cid rs d2))"
    if "features d2 = features d" for fd props cid rs d2
    using assms that by (intro feature_defaults_unique) (simp add: features_unique_def)
  have up: "features d2 = features d"
    if "changeset_upsert o1 cid ms u rs (d\<lparr>suspicion_reasons := rows\<rparr>) = (e, d2)" for cid ms u rs rows e d2
  proof -
    from that have "d2 = snd (changeset_upsert o1 cid ms u rs (d\<lparr>suspicion_reasons := rows\<rparr>))" by simp
    then show ?thesis by simp
  qed
  have same: "features_unique d2" if "features d2 = features d" for d2
    using assms that by (simp add: features_unique_def)
  show ?thesis
    using assms
    by (auto simp: create_feature_def Let_def fs same
        split: json.splits sum.splits prod.splits option.splits dest!: up)
qed

lemma update_feature_obj_unique:
  assumes "features_unique d" and "obj \<in> set (features d)"
      and "feature_key obj' = feature_key obj" and "feature_pk obj' = feature_pk obj"
  shows "features_unique (update_feature (feature_pk obj) (\<lambda>x. obj') d)"
proof -
  have same: "x = obj" if "x \<in> set (features d)" "feature_pk x = feature_pk obj" for x
    using assms(1) that assms(2) by (auto simp: features_unique_def dest: distinct_map_eq)
  have "map feature_key (map (\<lambda>x. if feature_pk x = feature_pk obj then obj' else x) (features d))
          = map feature_key (features d)"
    by (rule map_update_same) (use same assms(3) in auto)
  moreover
  have "map feature_pk (map (\<lambda>x. if feature_pk x = feature_pk obj then obj' else x) (features d))
          = map feature_pk (features d)"
    by (rule map_update_same) (use assms(4) in auto)
  moreover
  have "features (update_feature (feature_pk obj) (\<lambda>x. obj') d)
          = map (\<lambda>x. if feature_pk x = feature_pk obj then obj' else x) (features d)"
    by (simp add: update_feature_def)
  ultimately show ?thesis
    using assms(1) by (simp only: features_unique_def)
qed

lemma feature_post_unique:
  assumes "features_unique d"
  shows "features_unique (snd (SetHarmfulFeature_post ru now cid slug d))"
    and "features_unique (snd (SetGoodFeature_post ru now cid slug d))"
proof -
  have m: "features_unique (update_feature (feature_pk obj)
              (\<lambda>x. obj\<lparr>checked := True, harmful := Some h,
                      check_user := Some p, check_date := Some now\<rparr>) d)"
    if "get_object cid slug d = Inr obj" for obj h p
    using assms get_object_Inr [OF that]
    by (intro update_feature_obj_unique) (simp_all add: feature_key_def)
  show "features_unique (snd (SetHarmfulFeature_post ru now cid slug d))"
    using assms m by (simp add: SetHarmfulFeature_post_def split: sum.splits option.splits)
  show "features_unique (snd (SetGoodFeature_post ru now cid slug d))"
    using assms m by (simp add: SetGoodFeature_post_def split: sum.splits option.splits)
qed

lemma mark_changeset_features:
  "features (site_db (snd (mark_changeset h ru now pk data s))) = features (site_db s)"
  by (simp add: mark_changeset_def Let_def split: option.splits prod.splits bool.splits)

lemma uncheck_changeset_features:
  "features (site_db (snd (uncheck_changeset ru pk s))) = features (site_db s)"
  by (simp add: uncheck_changeset_def split: option.splits)

lemma handle_unique:
  assumes "features_unique (site_db s)"
  shows "features_unique (site_db (snd (handle r s)))"
proof (cases r)
  case (CreateFeature l o1 o2 data)
  with create_feature_unique [OF assms, of l o1 o2 data] show ?thesis
    by (simp add: case_prod_beta)
next
  case (SetHarmfulFeature u now cid slug)
  with feature_post_unique [OF assms, of u now cid slug] show ?thesis
    by (simp add: case_prod_beta)
next
  case (SetGoodFeature u now cid slug)
  with feature_post_unique [OF assms, of u now cid slug] show ?thesis
    by (simp add: case_prod_beta)
next
  case (WhitelistUser u name)
  with assms show ?thesis
    by (simp add: case_prod_beta features_unique_def)
next
  case (MigrateFeatures rc)
  with assms show ?thesis
    by (auto simp: features_unique_def split: sum.splits dest: migrate_features_reviewed(1))
next
  case (SetHarmfulChangeset u now pk data)
  with mark_changeset_features [where h = True and ru = u and now = now and pk = pk and data = data and s = s] assms show ?thesis
    by (simp add: set_harmful_changeset_def features_unique_def)
next
  case (SetGoodChangeset u now pk data)
  with mark_changeset_features [where h = False and ru = u and now = now and pk = pk and data = data and s = s] assms show ?thesis
    by (simp add: set_good_changeset_def features_unique_def)
next
  case (UncheckChangeset u pk)
  with uncheck_changeset_features [where ru = u and pk = pk and s = s] assms show ?thesis
    by (simp add: features_unique_def)
qed

lemma run_unique: "features_unique (site_db s) \<Longrightarrow> features_unique (site_db (run reqs s))"
proof (induction reqs arbitrary: s)
  case Nil
  then show ?case by simp
next
  case (Cons r reqs)
  from Cons.IH [OF handle_unique [OF Cons.prems, of r]] show ?case by simp
qed

lemma filtered_json_fields:
  "filtered_json rc f = Inr nf \<Longrightarrow>
     nf_url nf = format_url rc (osm_type f) (osm_id f) \<and> nf_osm_id nf = osm_id f
     \<and> nf_reasons nf = feature_reasons f \<and> nf_version nf = osm_version f"
  by (auto simp: filtered_json_def split: sum.splits)

lemma map_filtered_json_fields:
  "map_filtered_json rc fs = Inr nfs \<Longrightarrow>
     map nf_url nfs = map (\<lambda>f. format_url rc (osm_type f) (osm_id f)) fs
     \<and> map nf_osm_id nfs = map osm_id fs \<and> map nf_reasons nfs = map feature_reasons fs"
proof (induction fs arbitrary: nfs)
  case Nil
  then show ?case by simp
next
  case (Cons f fs)
  then show ?case
    by (auto split: sum.splits dest: filtered_json_fields)
qed

lemma distinct_key_filter:
  "distinct (map feature_key fs) \<Longrightarrow>
   distinct (map osm_id (filter (\<lambda>f. changeset_id f = cid) fs))"
  by (induction fs) (auto simp: feature_key_def rev_image_eqI)

lemma changeset_features_distinct:
  "features_unique d \<Longrightarrow> distinct (map osm_id (changeset_features d cid))"
  by (simp add: features_unique_def changeset_features_def distinct_key_filter)

lemma distinct_urls:
  assumes "distinct (map osm_id fs)" and "list_all (\<lambda>f. natural_id (osm_id f)) fs"
  shows "distinct (map (\<lambda>f. format_url rc (osm_type f) (osm_id f)) fs)"
proof -
  from assms(1) have d: "distinct fs" and i: "inj_on osm_id (set fs)"
    by (simp_all add: distinct_map)
  have "inj_on (\<lambda>f. format_url rc (osm_type f) (osm_id f)) (set fs)"
  proof (rule inj_onI)
    fix x y assume x: "x \<in> set fs" and y: "y \<in> set fs"
      and e: "format_url rc (osm_type x) (osm_id x) = format_url rc (osm_type y) (osm_id y)"
    from assms(2) x y have "natural_id (osm_id x)" "natural_id (osm_id y)"
      by (simp_all add: list_all_iff)
    with e have "osm_id x = osm_id y" by (rule format_url_inj)
    with i x y show "x = y" by (simp add: inj_on_def)
  qed
  with d show ?thesis by (simp add: distinct_map)
qed











lemma set_related_add [simp]: "set (related_add old ids) = set old \<union> set ids"
  by (auto simp: related_add_def)

lemma get_or_create_reasons_ids:
  "get_or_create_reasons ts acc rs = (Inr ids, rows) \<Longrightarrow>
     set acc \<subseteq> set ids \<and> (\<exists>new. rows = rs @ new)
     \<and> (\<forall>t \<in> set ts. \<exists>r \<in> set rows. reason_name r = t \<and> reason_id r \<in> set ids)"
proof (induction ts arbitrary: acc rs)
  case Nil
  then show ?case by simp
next
  case (Cons t ts)
  show ?case
  proof (cases "get_rows (\<lambda>r. reason_name r = t) rs")
    case NoRow
    define i where "i = fresh_id (map reason_id rs)"
    define rs1 where "rs1 = rs @ [\<lparr>reason_id = i, reason_name = t, is_visible = True\<rparr>]"
    from Cons.prems NoRow
    have "get_or_create_reasons ts (related_add acc [i]) rs1 = (Inr ids, rows)"
      by (simp add: i_def rs1_def Let_def)
    from Cons.IH [OF this] obtain new where
      a: "set (related_add acc [i]) \<subseteq> set ids" and b: "rows = rs1 @ new"
      and c: "\<forall>t \<in> set ts. \<exists>r \<in> set rows. reason_name r = t \<and> reason_id r \<in> set ids"
      by blast
    from b have "\<lparr>reason_id = i, reason_name = t, is_visible = True\<rparr> \<in> set rows"
      by (simp add: rs1_def)
    with a have "\<exists>r \<in> set rows. reason_name r = t \<and> reason_id r \<in> set ids"
      by (intro bexI [of _ "\<lparr>reason_id = i, reason_name = t, is_visible = True\<rparr>"]) auto
    with a b c show ?thesis by (auto simp: rs1_def)
  next
    case (OneRow r)
    then have r: "r \<in> set rs" "reason_name r = t" by (auto dest: get_rows_OneRow)
    from Cons.prems OneRow
    have "get_or_create_reasons ts (related_add acc [reason_id r]) rs = (Inr ids, rows)"
      by simp
    from Cons.IH [OF this] obtain new where
      a: "set (related_add acc [reason_id r]) \<subseteq> set ids" and b: "rows = rs @ new"
      and c: "\<forall>t \<in> set ts. \<exists>r \<in> set rows. reason_name r = t \<and> reason_id r \<in> set ids"
      by blast
    from r a b have "\<exists>r \<in> set rows. reason_name r = t \<and> reason_id r \<in> set ids"
      by (intro bexI [of _ r]) auto
    with a b c show ?thesis by auto
  next
    case ManyRows
    with Cons.prems show ?thesis by simp
  qed
qed

lemma store_feature_suspicion_reasons [simp]:
  "suspicion_reasons (snd (store_feature o2 df rs d)) = suspicion_reasons d"
  by (simp add: store_feature_def Let_def update_feature_def split: lookup.splits add_outcome.splits)

lemma feature_defaults_suspicion_reasons [simp]:
  "suspicion_reasons (snd (feature_defaults l o2 fd props cid rs d)) = suspicion_reasons d"
  by (simp add: feature_defaults_def Let_def
      split: option.splits geos_outcome.splits sum.splits)

lemma changeset_upsert_suspicion_reasons [simp]:
  "suspicion_reasons (snd (changeset_upsert o1 cid ms u rs d)) = suspicion_reasons d"
  by (simp add: changeset_upsert_def Let_def update_changeset_def
      split: lookup.splits add_outcome.splits)

lemma map_of_dict_pop: "k \<noteq> k' \<Longrightarrow> map_of (dict_pop d k') k = map_of d k"
  by (induction d) (auto simp: dict_pop_def)

lemma store_feature_existing:
  assumes "get_rows (\<lambda>f. osm_id f = osm_id df \<and> changeset_id f = changeset_id df) (features d)
             = OneRow f"
  shows "store_feature Added df rs d =
           (Inr (Response 201 ''Feature created.''),
            update_feature (feature_pk f)
              (\<lambda>x. x\<lparr>feature_reasons := related_add (feature_reasons x) rs\<rparr>) d)"
  using assms by (simp add: store_feature_def)

lemma feature_defaults_existing:
  assumes "map_of props ''osm:id'' = Some oid"
      and "get_rows (\<lambda>f. osm_id f = oid \<and> changeset_id f = cid) (features d) = OneRow f"
      and "feature_defaults l Added fd props cid rs d = (Inr (Response 201 m), d')"
  shows "d' = update_feature (feature_pk f)
              (\<lambda>x. x\<lparr>feature_reasons := related_add (feature_reasons x) rs\<rparr>) d"
  using assms(3,1) assms(2)
  by (auto simp: feature_defaults_def Let_def store_feature_existing
      split: option.splits geos_outcome.splits sum.splits)

lemma create_feature_201E:
  assumes "create_feature l o1 o2 data d = (Inr (Response 201 m), d')"
  obtains fd props texts rs rows ms d2 where
    "data = JObj fd" "map_of fd ''properties'' = Some (JObj props)"
    "reasons_texts_of (dict_get props ''suspicions'') = Inr texts"
    "get_or_create_reasons texts [] (suspicion_reasons d) = (Inr rs, rows)"
    "changeset_upsert o1 (dict_get props ''osm:changeset'') ms
       (dict_get (dict_pop props ''suspicions'') ''osm:uid'') rs (d\<lparr>suspicion_reasons := rows\<rparr>)
       = (None, d2)"
    "feature_defaults l o2 (dict_set fd ''properties'' (JObj (dict_pop props ''suspicions'')))
       (dict_pop props ''suspicions'') (dict_get props ''osm:changeset'') rs d2
       = (Inr (Response 201 m), d')"
  using assms
  by (auto simp: create_feature_def Let_def has_key_def dict_get_def
      split: json.splits if_splits sum.splits prod.splits option.splits)

lemma create_feature_existing:
  assumes "data = JObj fd" and "map_of fd ''properties'' = Some (JObj props)"
      and "map_of props ''osm:id'' = Some oid"
      and "get_rows (\<lambda>f. osm_id f = oid \<and> changeset_id f = dict_get props ''osm:changeset'')
             (features d) = OneRow f"
      and "reasons_texts_of (dict_get props ''suspicions'') = Inr texts"
      and "create_feature l o1 Added data d = (Inr (Response 201 m), d')"
  shows "\<exists>rs. features d' = map (\<lambda>x. if feature_pk x = feature_pk f
                                      then x\<lparr>feature_reasons := related_add (feature_reasons x) rs\<rparr>
                                      else x) (features d)
            \<and> (\<forall>t \<in> set texts. \<exists>r \<in> set (suspicion_reasons d').
                   reason_name r = t \<and> reason_id r \<in> set rs)"
proof -
  from assms(6) obtain fd' props' texts' rs rows ms d2 where
    1: "data = JObj fd'" "map_of fd' ''properties'' = Some (JObj props')"
    and 2: "reasons_texts_of (dict_get props' ''suspicions'') = Inr texts'"
    and 3: "get_or_create_reasons texts' [] (suspicion_reasons d) = (Inr rs, rows)"
    and 4: "changeset_upsert o1 (dict_get props' ''osm:changeset'') ms
       (dict_get (dict_pop props' ''suspicions'') ''osm:uid'') rs (d\<lparr>suspicion_reasons := rows\<rparr>)
       = (None, d2)"
    and 5: "feature_defaults l Added (dict_set fd' ''properties'' (JObj (dict_pop props' ''suspicions'')))
       (dict_pop props' ''suspicions'') (dict_get props' ''osm:changeset'') rs d2
       = (Inr (Response 201 m), d')"
    by (rule create_feature_201E)
  from 1 assms(1,2) have eq: "fd' = fd" "props' = props" by simp_all
  from 2 assms(5) eq have t: "texts' = texts" by simp
  from 4 have d2: "d2 = snd (changeset_upsert o1 (dict_get props' ''osm:changeset'') ms
       (dict_get (dict_pop props' ''suspicions'') ''osm:uid'') rs (d\<lparr>suspicion_reasons := rows\<rparr>))"
    by simp
  then have f2: "features d2 = features d" and r2: "suspicion_reasons d2 = rows" by simp_all
  have oid: "map_of (dict_pop props ''suspicions'') ''osm:id'' = Some oid"
    using assms(3) by (simp add: map_of_dict_pop)
  from assms(4) f2 have g: "get_rows (\<lambda>f. osm_id f = oid \<and> changeset_id f = dict_get props ''osm:changeset'')
             (features d2) = OneRow f" by simp
  from feature_defaults_existing [OF oid g 5 [unfolded eq]]
  have d': "d' = update_feature (feature_pk f)
              (\<lambda>x. x\<lparr>feature_reasons := related_add (feature_reasons x) rs\<rparr>) d2" .
  from d' f2 have "features d' = map (\<lambda>x. if feature_pk x = feature_pk f
                                      then x\<lparr>feature_reasons := related_add (feature_reasons x) rs\<rparr>
                                      else x) (features d)"
    by (simp add: update_feature_def)
  moreover from d' r2 have "suspicion_reasons d' = rows" by (simp add: update_feature_def)
  moreover from get_or_create_reasons_ids [OF 3] t
  have "\<forall>t \<in> set texts. \<exists>r \<in> set rows. reason_name r = t \<and> reason_id r \<in> set rs" by simp
  ultimately show ?thesis by blast
qed



lemma dict_get_dict_pop: "k \<noteq> k' \<Longrightarrow> dict_get (dict_pop d k') k = dict_get d k"
  by (simp add: dict_get_def map_of_dict_pop)





text \<open>
  Feature rows are unique by changeset and osm id. \<^verbatim>\<open>create_feature\<close> looks a
  feature up by changeset and osm id before it inserts, so after any sequence of requests
  no two feature rows of a changeset share an osm id; the list
  \<^verbatim>\<open>migrate_features\<close> computes for a changeset has one entry per feature row, so
  its entries have distinct osm ids and, for ids that are non-negative integers, distinct
  urls. A report about a feature that is already there adds no row: the existing row
  keeps its reasons and gets the ids of the reported reasons added. None of this is about
  the \<^verbatim>\<open>new_features\<close> column between two migrations: \<^verbatim>\<open>create_feature\<close> never
  writes it.
\<close>

lemma feature_rows_unique_by_key:
  assumes "features_unique (site_db s)"
      and "map_of fd ''properties'' = Some (JObj props)"
      and "map_of props ''osm:id'' = Some oid"
      and "get_rows (\<lambda>f. osm_id f = oid \<and> changeset_id f = dict_get props ''osm:changeset'')
             (features d) = OneRow f"
      and "reasons_texts_of (dict_get props ''suspicions'') = Inr texts"
      and "create_feature l o1 Added (JObj fd) d = (Inr (Response 201 m), d')"
  shows "features_unique (site_db (run reqs s))
       \<and> (\<forall>cid nfs. new_features_data rc (site_db (run reqs s)) cid = Inr nfs \<longrightarrow>
             distinct (map nf_osm_id nfs)
             \<and> (list_all (\<lambda>f. natural_id (osm_id f)) (changeset_features (site_db (run reqs s)) cid)
                  \<longrightarrow> distinct (map nf_url nfs)))
       \<and> length (features d') = length (features d)
       \<and> (\<exists>rs. features d' = map (\<lambda>x. if feature_pk x = feature_pk f
                                      then x\<lparr>feature_reasons := related_add (feature_reasons x) rs\<rparr>
                                      else x) (features d)
            \<and> (\<forall>t \<in> set texts. \<exists>r \<in> set (suspicion_reasons d').
                   reason_name r = t \<and> reason_id r \<in> set rs))"
proof -
  let ?d = "site_db (run reqs s)"
  have u: "features_unique ?d" using assms(1) by (rule run_unique)
  have n: "distinct (map nf_osm_id nfs)
           \<and> (list_all (\<lambda>f. natural_id (osm_id f)) (changeset_features ?d cid)
                  \<longrightarrow> distinct (map nf_url nfs))"
    if "new_features_data rc ?d cid = Inr nfs" for cid nfs
  proof -
    from that have m: "map_filtered_json rc (changeset_features ?d cid) = Inr nfs"
      by (simp add: new_features_data_def)
    note f = map_filtered_json_fields [OF m]
    from changeset_features_distinct [OF u, of cid] have i: "distinct (map osm_id (changeset_features ?d cid))" .
    with f have "distinct (map nf_osm_id nfs)" by simp
    moreover have "distinct (map nf_url nfs)"
      if "list_all (\<lambda>f. natural_id (osm_id f)) (changeset_features ?d cid)"
      using distinct_urls [OF i that, of rc] f by simp
    ultimately show ?thesis by simp
  qed
  from create_feature_existing [OF refl assms(2,3,4,5,6)] obtain rs where
    rs: "features d' = map (\<lambda>x. if feature_pk x = feature_pk f
                                      then x\<lparr>feature_reasons := related_add (feature_reasons x) rs\<rparr>
                                      else x) (features d)"
        "\<forall>t \<in> set texts. \<exists>r \<in> set (suspicion_reasons d'). reason_name r = t \<and> reason_id r \<in> set rs"
    by blast
  from rs(1) have "length (features d') = length (features d)" by simp
  with u n rs show ?thesis by blast
qed






lemma example_feature_changeset [simp]: "changeset_id (example_feature pk cid) = cid"
  by (simp add: example_feature_def)



section \<open>Throttling of the check views\<close>

lemma mark_changeset_status:
  "fst (mark_changeset h (Some u) now pk data s) = 429
     \<longleftrightarrow> \<not> fst (allow_request u now (throttle_history s))"
  by (auto simp: mark_changeset_def Let_def split: prod.splits bool.splits option.splits)

lemma mark_changeset_history:
  "throttle_history (snd (mark_changeset h (Some u) now pk data s))
     = snd (allow_request u now (throttle_history s))"
  by (auto simp: mark_changeset_def Let_def split: prod.splits bool.splits option.splits)

lemma mark_changeset_anonymous:
  "mark_changeset h None now pk data s = (401, s)"
  by (simp add: mark_changeset_def)

lemma allow_request_other:
  "user_pk u \<noteq> p \<or> is_staff u \<Longrightarrow> snd (allow_request u now hist) p = hist p"
  by (auto simp: allow_request_def Let_def)

lemma allow_request_own:
  assumes "\<not> is_staff u"
  shows "fst (allow_request u now hist) = (length (recent now (hist (user_pk u))) < throttle_rate)"
    and "snd (allow_request u now hist) (user_pk u)
           = (if length (recent now (hist (user_pk u))) < throttle_rate
              then now # recent now (hist (user_pk u)) else recent now (hist (user_pk u)))"
  using assms by (auto simp: allow_request_def Let_def)

lemma handle_history_db_requests:
  "throttle_history (snd (handle (CreateFeature l o1 o2 data) s)) = throttle_history s"
  "throttle_history (snd (handle (SetHarmfulFeature ru now cid slug) s)) = throttle_history s"
  "throttle_history (snd (handle (SetGoodFeature ru now cid slug) s)) = throttle_history s"
  "throttle_history (snd (handle (WhitelistUser ru name) s)) = throttle_history s"
  "throttle_history (snd (handle (MigrateFeatures rc) s)) = throttle_history s"
  "throttle_history (snd (handle (UncheckChangeset ru pk) s)) = throttle_history s"
  by (simp_all add: case_prod_beta uncheck_changeset_def split: sum.splits option.splits)

lemma handle_history_other:
  "mark_time p r = None \<Longrightarrow> throttle_history (snd (handle r s)) p = throttle_history s p"
proof (cases r)
  case (SetHarmfulChangeset ru now pk data)
  assume "mark_time p r = None"
  with SetHarmfulChangeset show ?thesis
    by (cases ru)
       (auto simp: set_harmful_changeset_def mark_changeset_anonymous mark_changeset_history
          allow_request_other split: if_splits)
next
  case (SetGoodChangeset ru now pk data)
  assume "mark_time p r = None"
  with SetGoodChangeset show ?thesis
    by (cases ru)
       (auto simp: set_good_changeset_def mark_changeset_anonymous mark_changeset_history
          allow_request_other split: if_splits)
qed (simp_all add: case_prod_beta uncheck_changeset_def split: sum.splits option.splits)

lemma handle_mark:
  assumes "mark_time p r = Some now"
  shows "(fst (handle r s) = 429) = (throttle_rate \<le> length (recent now (throttle_history s p)))"
    and "throttle_history (snd (handle r s)) p
           = (if length (recent now (throttle_history s p)) < throttle_rate
              then now # recent now (throttle_history s p) else recent now (throttle_history s p))"
proof -
  from assms obtain u pk data where
    r: "r = SetHarmfulChangeset (Some u) now pk data \<or> r = SetGoodChangeset (Some u) now pk data"
    and u: "user_pk u = p" "\<not> is_staff u"
    by (cases "(p, r)" rule: mark_time.cases) (auto split: if_splits)
  from r u allow_request_own [OF u(2), of now "throttle_history s"]
  show "(fst (handle r s) = 429) = (throttle_rate \<le> length (recent now (throttle_history s p)))"
    by (auto simp: set_harmful_changeset_def set_good_changeset_def mark_changeset_status)
  from r u allow_request_own [OF u(2), of now "throttle_history s"]
  show "throttle_history (snd (handle r s)) p
           = (if length (recent now (throttle_history s p)) < throttle_rate
              then now # recent now (throttle_history s p) else recent now (throttle_history s p))"
    by (auto simp: set_harmful_changeset_def set_good_changeset_def mark_changeset_history)
qed

lemma passed_simps:
  "passed p [] s = []"
  "mark_time p r = None \<Longrightarrow> passed p (r # rs) s = passed p rs (snd (handle r s))"
  "mark_time p r = Some now \<Longrightarrow> passed p (r # rs) s =
     (if fst (handle r s) = 429 then passed p rs (snd (handle r s))
      else now # passed p rs (snd (handle r s)))"
  by (simp_all add: passed_def)

lemma passed_times: "set (passed p reqs s) \<subseteq> set (List.map_filter (mark_time p) reqs)"
proof (induction reqs arbitrary: s)
  case Nil
  show ?case by (simp add: passed_simps)
next
  case (Cons r reqs)
  show ?case
  proof (cases "mark_time p r")
    case None
    with Cons [of "snd (handle r s)"] show ?thesis
      by (simp add: passed_simps)
  next
    case (Some now)
    with Cons [of "snd (handle r s)"] show ?thesis
      by (auto simp: passed_simps)
  qed
qed

lemma window_recent:
  assumes "in_window w a" and "now \<le> a"
  shows "filter (in_window w) (recent now H) = filter (in_window w) H"
proof -
  have "in_window w h \<Longrightarrow> now < h + throttle_window" for h
    using assms by (simp add: in_window_def)
  then show ?thesis
    by (auto simp: recent_def intro: filter_cong)
qed

lemma passed_window:
  assumes "length (throttle_history s p) \<le> throttle_rate"
      and "\<forall>h \<in> set (throttle_history s p). \<forall>t \<in> set (List.map_filter (mark_time p) reqs). h \<le> t"
      and "sorted (List.map_filter (mark_time p) reqs)"
  shows "length (filter (in_window w) (passed p reqs s @ throttle_history s p)) \<le> throttle_rate"
  using assms
proof (induction reqs arbitrary: s)
  case Nil
  have "length (filter (in_window w) (throttle_history s p)) \<le> length (throttle_history s p)"
    by (rule length_filter_le)
  also have "\<dots> \<le> throttle_rate" by (rule Nil.prems(1))
  finally show ?case by (simp add: passed_simps)
next
  case (Cons r reqs)
  let ?s' = "snd (handle r s)"
  let ?H = "throttle_history s p"
  show ?case
  proof (cases "mark_time p r")
    case None
    then have h: "throttle_history ?s' p = ?H" by (rule handle_history_other)
    from None Cons.prems have "length (filter (in_window w) (passed p reqs ?s' @ throttle_history ?s' p)) \<le> throttle_rate"
      by (intro Cons.IH) (simp_all add: h)
    with None h show ?thesis by (simp add: passed_simps)
  next
    case (Some now)
    let ?H' = "recent now ?H"
    let ?A = "passed p reqs ?s'"
    from Some Cons.prems(2,3)
    have later: "\<forall>t \<in> set (List.map_filter (mark_time p) reqs). now \<le> t"
      and srt: "sorted (List.map_filter (mark_time p) reqs)"
      and old: "\<forall>h \<in> set ?H. \<forall>t \<in> set (List.map_filter (mark_time p) reqs). h \<le> t"
      by auto
    have sub: "set ?H' \<subseteq> set ?H" and len: "length ?H' \<le> length ?H"
      by (auto simp: recent_def)
    have A_later: "\<forall>a \<in> set ?A. now \<le> a"
      using later passed_times [of p reqs ?s'] by blast
    have key: "length (filter (in_window w) (B @ ?H)) \<le> throttle_rate"
      if ih: "length (filter (in_window w) (B @ ?H')) \<le> throttle_rate"
        and B: "\<forall>a \<in> set B. now \<le> a" for B
    proof (cases "filter (in_window w) B = []")
      case True
      have "length (filter (in_window w) ?H) \<le> length ?H" by (rule length_filter_le)
      also have "\<dots> \<le> throttle_rate" by (rule Cons.prems(1))
      finally show ?thesis using True by simp
    next
      case False
      then obtain a where "a \<in> set B" "in_window w a"
        by (auto simp: filter_empty_conv)
      with B have "filter (in_window w) ?H' = filter (in_window w) ?H"
        by (intro window_recent [of w a]) auto
      with ih show ?thesis by simp
    qed
    show ?thesis
    proof (cases "throttle_rate \<le> length ?H'")
      case True
      with handle_mark [OF Some, of s] have st: "fst (handle r s) = 429"
        and h: "throttle_history ?s' p = ?H'" by auto
      have "length (filter (in_window w) (?A @ throttle_history ?s' p)) \<le> throttle_rate"
        using Cons.prems(1) len sub old srt by (intro Cons.IH) (auto simp: h)
      then have "length (filter (in_window w) (?A @ ?H)) \<le> throttle_rate"
        using A_later by (intro key) (simp_all add: h)
      with Some st show ?thesis by (simp add: passed_simps)
    next
      case False
      with handle_mark [OF Some, of s] have st: "fst (handle r s) \<noteq> 429"
        and h: "throttle_history ?s' p = now # ?H'" by auto
      have "length (filter (in_window w) (?A @ throttle_history ?s' p)) \<le> throttle_rate"
        using False sub old srt later by (intro Cons.IH) (auto simp: h)
      then have "length (filter (in_window w) ((now # ?A) @ ?H')) \<le> throttle_rate"
        by (auto simp: h split: if_splits)
      then have "length (filter (in_window w) ((now # ?A) @ ?H)) \<le> throttle_rate"
        using A_later by (intro key) simp_all
      with Some st show ?thesis by (simp add: passed_simps)
    qed
  qed
qed

lemma length_filter_map_fst:
  "length (filter P (map fst xs)) = length (filter (\<lambda>e. P (fst e)) xs)"
  by (induction xs) auto

lemma length_filter_mono:
  "(\<And>x. P x \<Longrightarrow> Q x) \<Longrightarrow> length (filter P xs) \<le> length (filter Q xs)"
  by (induction xs) auto

lemma mark_changeset_429:
  "fst (mark_changeset h ru now pk data s) = 429 \<Longrightarrow>
   site_db (snd (mark_changeset h ru now pk data s)) = site_db s"
  by (auto simp: mark_changeset_def Let_def split: option.splits prod.splits bool.splits if_splits)

lemma mark_changeset_throttled:
  "\<not> is_staff u \<Longrightarrow> throttle_rate \<le> length (recent now (throttle_history s (user_pk u))) \<Longrightarrow>
   fst (mark_changeset h (Some u) now pk data s) = 429"
  by (simp add: mark_changeset_status allow_request_own)

lemma mark_changeset_staff:
  "is_staff v \<Longrightarrow> fst (mark_changeset h (Some v) now pk data s) \<noteq> 429"
  by (simp add: mark_changeset_status allow_request_def)

text \<open>
  C5. Checking is throttled per user. In any run whose check requests of a user who is
  not staff come in the order of their times, at most 3 of that user's set-harmful and
  set-good requests, counted together, succeed within any 60 seconds, and at most 3 pass
  the throttle at all. A request of a user with 3 passed requests in the last minute
  answers 429 and leaves the database as it is; a request of a staff user never answers
  429.
\<close>

theorem check_throttle:
  assumes "throttle_history s p = []"
      and "sorted (List.map_filter (mark_time p) reqs)"
      and "\<not> is_staff u" and "3 \<le> length (recent now (throttle_history s0 (user_pk u)))"
      and "is_staff v"
  shows "length (filter (\<lambda>e. snd e = 200 \<and> w \<le> fst e \<and> fst e < w + 60) (check_log p reqs s)) \<le> 3
       \<and> length (filter (\<lambda>e. snd e \<noteq> 429 \<and> w \<le> fst e \<and> fst e < w + 60) (check_log p reqs s)) \<le> 3
       \<and> fst (set_harmful_changeset (Some u) now pk data s0) = 429
       \<and> site_db (snd (set_harmful_changeset (Some u) now pk data s0)) = site_db s0
       \<and> fst (set_good_changeset (Some u) now pk data s0) = 429
       \<and> site_db (snd (set_good_changeset (Some u) now pk data s0)) = site_db s0
       \<and> fst (set_harmful_changeset (Some v) now pk data s0) \<noteq> 429
       \<and> fst (set_good_changeset (Some v) now pk data s0) \<noteq> 429"
proof -
  have "length (filter (in_window w) (passed p reqs s @ throttle_history s p)) \<le> throttle_rate"
    using assms(1,2) by (intro passed_window) (simp_all add: throttle_rate_def)
  then have "length (filter (in_window w) (passed p reqs s)) \<le> 3"
    by (simp add: assms(1) throttle_rate_def)
  then have a: "length (filter (\<lambda>e. snd e \<noteq> 429 \<and> w \<le> fst e \<and> fst e < w + 60) (check_log p reqs s)) \<le> 3"
    by (simp add: passed_def length_filter_map_fst in_window_def throttle_window_def conj_commute)
  have "length (filter (\<lambda>e. snd e = 200 \<and> w \<le> fst e \<and> fst e < w + 60) (check_log p reqs s))
      \<le> length (filter (\<lambda>e. snd e \<noteq> 429 \<and> w \<le> fst e \<and> fst e < w + 60) (check_log p reqs s))"
    by (rule length_filter_mono) auto
  with a have b: "length (filter (\<lambda>e. snd e = 200 \<and> w \<le> fst e \<and> fst e < w + 60) (check_log p reqs s)) \<le> 3"
    by (rule order_trans [rotated])
  from assms(4) have t: "throttle_rate \<le> length (recent now (throttle_history s0 (user_pk u)))"
    by (simp add: throttle_rate_def)
  note th = mark_changeset_throttled [OF assms(3) t]
  from a b th [of True pk data] th [of False pk data]
    mark_changeset_429 [OF th [of True pk data]] mark_changeset_429 [OF th [of False pk data]]
    mark_changeset_staff [OF assms(5), of True now pk data s0]
    mark_changeset_staff [OF assms(5), of False now pk data s0]
  show ?thesis
    by (simp add: set_harmful_changeset_def set_good_changeset_def)
qed

lemma throttle_log:
  "check_log 1 throttle_requests throttle_site
     = [(100, 200), (110, 200), (120, 200), (130, 429), (159, 429)]"
  by (simp add: throttle_requests_def throttle_site_def reviewer_def set_harmful_changeset_def
      set_good_changeset_def mark_changeset_def allow_request_def recent_def throttle_rate_def
      throttle_window_def Let_def empty_db_def new_changeset_def update_changeset_def
      tags_valid_def)

theorem check_throttle_witness:
  "length (filter (\<lambda>e. snd e = 200 \<and> 100 \<le> fst e \<and> fst e < 100 + 60)
             (check_log 1 throttle_requests throttle_site)) \<le> 3
   \<and> check_log 1 throttle_requests throttle_site
       = [(100, 200), (110, 200), (120, 200), (130, 429), (159, 429)]
   \<and> fst (set_harmful_changeset (Some reviewer) 159
             (JInt 5) None (throttle_site\<lparr>throttle_history := (\<lambda>u. [120, 110, 100])\<rparr>)) = 429
   \<and> fst (set_good_changeset (Some staff_user) 159
             (JInt 5) None (throttle_site\<lparr>throttle_history := (\<lambda>u. [120, 110, 100])\<rparr>)) \<noteq> 429"
proof -
  have a1: "throttle_history throttle_site 1 = []" by (simp add: throttle_site_def)
  have a2: "sorted (List.map_filter (mark_time 1) throttle_requests)"
    by (simp add: throttle_requests_def reviewer_def)
  have a3: "\<not> is_staff reviewer" and a5: "is_staff staff_user"
    by (simp_all add: reviewer_def staff_user_def)
  have a4: "3 \<le> length (recent 159 (throttle_history
               (throttle_site\<lparr>throttle_history := (\<lambda>u. [120, 110, 100])\<rparr>) (user_pk reviewer)))"
    by (simp add: recent_def throttle_window_def)
  from check_throttle [OF a1 a2 a3 a4 a5, of 100 "JInt 5" None] throttle_log
  show ?thesis by simp
qed

end
